theory Spec2Isabelle
  imports Main
begin

section \<open>Values of the decoded message source\<close>

text \<open>
  The decoder hands \<^verbatim>\<open>fit_to_csv.py\<close> a dictionary from message-type names to lists of
  messages; a message is a dictionary from field names to Python values. The values the
  model knows are \<^verbatim>\<open>None\<close>, integers (booleans are integers in Python), strings,
  \<^verbatim>\<open>datetime\<close> objects and lists. Floating-point values are outside the model.

  A \<^verbatim>\<open>datetime\<close> is modelled by the number of microseconds between 1970-01-01 00:00:00
  and the date and time it shows. The local time zone of the process is taken to be UTC; in
  another zone \<^verbatim>\<open>datetime.fromtimestamp\<close> shifts every converted instant by the offset of
  the zone. The platform is taken to be a POSIX system with a 64-bit \<^verbatim>\<open>time_t\<close>.
\<close>

datatype error = TypeError | ValueError | IndexError | OverflowError

type_synonym datetime = int

text \<open>\<^verbatim>\<open>datetime.min\<close> is 0001-01-01 00:00:00 and \<^verbatim>\<open>datetime.max\<close> is
  9999-12-31 23:59:59.999999.\<close>

definition DATETIME_MIN :: datetime where
  "DATETIME_MIN = - 62135596800000000"

definition DATETIME_MAX :: datetime where
  "DATETIME_MAX = 253402300799999999"

text \<open>
  What the model leaves to the platform: Python's \<^verbatim>\<open>int()\<close> on a string, and the result of
  \<^verbatim>\<open>datetime.fromtimestamp\<close> where it depends on the C library, on the time zone or on the
  rounding of a floating-point number: before 1970, within a day of the end of the year 9999,
  and, for an argument that went through \<^verbatim>\<open>/ 1000.0\<close>, from 2^33 seconds on. There the
  call may raise or return a value, and the model takes either from these functions.
\<close>

record platform =
  int_of_str :: "string \<Rightarrow> error + int"
  fromtimestamp_far :: "int \<Rightarrow> error + datetime"
  fromtimestamp_ms_far :: "int \<Rightarrow> error + datetime"

datatype pyval = PNone | PInt int | PStr string | PDate datetime | PList "pyval list"

type_synonym mesg = "string \<rightharpoonup> pyval"

type_synonym messages = "string \<rightharpoonup> mesg list"

text \<open>\<^verbatim>\<open>d.get(k, default)\<close>\<close>

definition dict_get :: "mesg \<Rightarrow> string \<Rightarrow> pyval \<Rightarrow> pyval" where
  "dict_get d k dflt = (case d k of None \<Rightarrow> dflt | Some v \<Rightarrow> v)"

text \<open>\<^verbatim>\<open>len(v)\<close>: only strings and lists have a length.\<close>

fun py_len :: "pyval \<Rightarrow> error + nat" where
  "py_len (PStr s) = Inr (length s)"
| "py_len (PList vs) = Inr (length vs)"
| "py_len _ = Inl TypeError"

text \<open>Iterating over a value (\<^verbatim>\<open>for v in seq\<close>, \<^verbatim>\<open>list.extend(seq)\<close>): a string yields its
  one-character strings.\<close>

fun py_iter :: "pyval \<Rightarrow> error + pyval list" where
  "py_iter (PStr s) = Inr (map (\<lambda>c. PStr [c]) s)"
| "py_iter (PList vs) = Inr vs"
| "py_iter _ = Inl TypeError"

text \<open>\<^verbatim>\<open>v[i]\<close> for a constant index \<^verbatim>\<open>i \<ge> 0\<close>.\<close>

fun py_index :: "pyval \<Rightarrow> nat \<Rightarrow> error + pyval" where
  "py_index (PList vs) i = (if i < length vs then Inr (vs ! i) else Inl IndexError)"
| "py_index (PStr s) i = (if i < length s then Inr (PStr [s ! i]) else Inl IndexError)"
| "py_index _ i = Inl TypeError"

text \<open>Truth value of a Python object (\<^verbatim>\<open>x if dev_fields else None\<close>).\<close>

fun py_truthy :: "pyval \<Rightarrow> bool" where
  "py_truthy PNone = False"
| "py_truthy (PInt n) = (n \<noteq> 0)"
| "py_truthy (PStr s) = (s \<noteq> [])"
| "py_truthy (PDate d) = True"
| "py_truthy (PList vs) = (vs \<noteq> [])"

text \<open>\<^verbatim>\<open>v == n\<close> for an integer literal \<^verbatim>\<open>n\<close>.\<close>

fun py_eq_int :: "pyval \<Rightarrow> int \<Rightarrow> bool" where
  "py_eq_int (PInt m) n = (m = n)"
| "py_eq_int _ n = False"

section \<open>Sample-group expander: \<^verbatim>\<open>_extract_sensor_data_fast\<close>\<close>

text \<open>The accumulators \<^verbatim>\<open>all_timestamps\<close>, \<^verbatim>\<open>all_x\<close>, \<^verbatim>\<open>all_y\<close>, \<^verbatim>\<open>all_z\<close>; the returned
  DataFrame has them as its columns \<^verbatim>\<open>timestamp\<close>, \<^verbatim>\<open>x\<close>, \<^verbatim>\<open>y\<close>, \<^verbatim>\<open>z\<close>, so row \<open>i\<close> of the
  table is the \<open>i\<close>-th entry of each.\<close>

record sensor_df =
  all_timestamps :: "datetime list"
  all_x :: "pyval list"
  all_y :: "pyval list"
  all_z :: "pyval list"

definition empty_sensor_df :: sensor_df where
  "empty_sensor_df = \<lparr>all_timestamps = [], all_x = [], all_y = [], all_z = []\<rparr>"

text \<open>The message key and the axis prefix of a sensor type; any other name raises.\<close>

definition sensor_keys :: "string \<Rightarrow> error + (string \<times> string)" where
  "sensor_keys sensor_type =
     (if sensor_type = ''accelerometer'' then Inr (''accelerometer_data_mesgs'', ''calibrated_accel'')
      else if sensor_type = ''gyroscope'' then Inr (''gyroscope_data_mesgs'', ''calibrated_gyro'')
      else Inl ValueError)"

text \<open>\<^verbatim>\<open>len(x_values) == len(y_values) == len(z_values) == len(sample_offsets)\<close>: a chained
  comparison, evaluated left to right and stopping at the first unequal pair.\<close>

definition consistent :: "pyval \<Rightarrow> pyval \<Rightarrow> pyval \<Rightarrow> pyval \<Rightarrow> error + bool" where
  "consistent x_values y_values z_values sample_offsets =
     (case py_len x_values of Inl e \<Rightarrow> Inl e | Inr lx \<Rightarrow>
     (case py_len y_values of Inl e \<Rightarrow> Inl e | Inr ly \<Rightarrow>
        if lx \<noteq> ly then Inr False else
     (case py_len z_values of Inl e \<Rightarrow> Inl e | Inr lz \<Rightarrow>
        if ly \<noteq> lz then Inr False else
     (case py_len sample_offsets of Inl e \<Rightarrow> Inl e | Inr lo \<Rightarrow> Inr (lz = lo)))))"

text \<open>
  \<^verbatim>\<open>datetime.datetime.fromtimestamp(base_timestamp_ms / 1000.0)\<close>. The division raises unless
  the base is a number. From 0 up to 2^33 seconds (the year 2242) the quotient is a double
  less than half a microsecond away from the exact value, and the conversion, which rounds to
  the microsecond, returns the exact instant. More than two days past the end of the year 9999
  or before the year 1 the conversion raises (which exception depends on the platform; every
  one is caught by the caller). In between the result is the platform's.
\<close>

fun fromtimestamp_ms :: "platform \<Rightarrow> pyval \<Rightarrow> error + datetime" where
  "fromtimestamp_ms pf (PInt b) =
     (if 0 \<le> b \<and> b < 8589934592000 then Inr (b * 1000)
      else if 253402473600000 \<le> b \<or> b \<le> - 62135769600000 then Inl ValueError
      else fromtimestamp_ms_far pf b)"
| "fromtimestamp_ms pf _ = Inl TypeError"

text \<open>\<^verbatim>\<open>datetime.timedelta(milliseconds=offset)\<close>: integer arithmetic; the number of days
  must have a magnitude of at most 999999999.\<close>

fun timedelta_ms :: "pyval \<Rightarrow> error + int" where
  "timedelta_ms (PInt n) =
     (if - 999999999 \<le> n div 86400000 \<and> n div 86400000 \<le> 999999999 then Inr (n * 1000)
      else Inl OverflowError)"
| "timedelta_ms _ = Inl TypeError"

text \<open>\<^verbatim>\<open>base_timestamp + delta\<close>: the sum must be a date of the years 1 to 9999.\<close>

definition datetime_add :: "datetime \<Rightarrow> int \<Rightarrow> error + datetime" where
  "datetime_add t d =
     (if DATETIME_MIN \<le> t + d \<and> t + d \<le> DATETIME_MAX then Inr (t + d) else Inl OverflowError)"

text \<open>\<^verbatim>\<open>[base_timestamp + timedelta(milliseconds=offset) for offset in sample_offsets]\<close>:
  the first exception ends the comprehension.\<close>

fun offset_timestamps :: "datetime \<Rightarrow> pyval list \<Rightarrow> error + datetime list" where
  "offset_timestamps base [] = Inr []"
| "offset_timestamps base (offset # rest) =
     (case timedelta_ms offset of Inl e \<Rightarrow> Inl e | Inr d \<Rightarrow>
     (case datetime_add base d of Inl e \<Rightarrow> Inl e | Inr t \<Rightarrow>
     (case offset_timestamps base rest of Inl e \<Rightarrow> Inl e | Inr ts \<Rightarrow> Inr (t # ts))))"

text \<open>The body of the loop over the groups. An exception anywhere in the \<^verbatim>\<open>try\<close> block
  and a failed consistency check both end in \<^verbatim>\<open>continue\<close>; what was appended before an
  exception stays appended.\<close>

definition group_step :: "platform \<Rightarrow> string \<Rightarrow> mesg \<Rightarrow> sensor_df \<Rightarrow> sensor_df" where
  "group_step pf axis_prefix g acc =
     (let base_timestamp_ms = dict_get g ''timestamp_ms'' (PInt 0);
          sample_offsets = dict_get g ''sample_time_offset'' (PList []);
          x_values = dict_get g (axis_prefix @ ''_x'') (PList []);
          y_values = dict_get g (axis_prefix @ ''_y'') (PList []);
          z_values = dict_get g (axis_prefix @ ''_z'') (PList [])
      in (case consistent x_values y_values z_values sample_offsets of
            Inl e \<Rightarrow> acc
          | Inr ok \<Rightarrow>
             if \<not> ok then acc else
            (case fromtimestamp_ms pf base_timestamp_ms of Inl e \<Rightarrow> acc | Inr base_timestamp \<Rightarrow>
            (case py_iter sample_offsets of Inl e \<Rightarrow> acc | Inr offs \<Rightarrow>
            (case offset_timestamps base_timestamp offs of Inl e \<Rightarrow> acc | Inr timestamps \<Rightarrow>
            (let acc1 = acc\<lparr>all_timestamps := all_timestamps acc @ timestamps\<rparr> in
            (case py_iter x_values of Inl e \<Rightarrow> acc1 | Inr xs \<Rightarrow>
            (let acc2 = acc1\<lparr>all_x := all_x acc1 @ xs\<rparr> in
            (case py_iter y_values of Inl e \<Rightarrow> acc2 | Inr ys \<Rightarrow>
            (let acc3 = acc2\<lparr>all_y := all_y acc2 @ ys\<rparr> in
            (case py_iter z_values of Inl e \<Rightarrow> acc3 | Inr zs \<Rightarrow>
               acc3\<lparr>all_z := all_z acc3 @ zs\<rparr>)))))))))))"

fun sensor_loop :: "platform \<Rightarrow> string \<Rightarrow> mesg list \<Rightarrow> sensor_df \<Rightarrow> sensor_df" where
  "sensor_loop pf axis_prefix [] acc = acc"
| "sensor_loop pf axis_prefix (g # gs) acc =
     sensor_loop pf axis_prefix gs (group_step pf axis_prefix g acc)"

text \<open>\<^verbatim>\<open>None\<close> is returned both when the message key is absent and when no timestamp was
  collected.\<close>

definition extract_sensor_data_fast ::
  "platform \<Rightarrow> messages \<Rightarrow> string \<Rightarrow> error + sensor_df option" where
  "extract_sensor_data_fast pf msgs sensor_type =
     (case sensor_keys sensor_type of Inl e \<Rightarrow> Inl e
      | Inr (message_key, axis_prefix) \<Rightarrow>
         (case msgs message_key of None \<Rightarrow> Inr None
          | Some sensor_messages \<Rightarrow>
             (let df = sensor_loop pf axis_prefix sensor_messages empty_sensor_df
              in if all_timestamps df = [] then Inr None else Inr (Some df))))"

section \<open>Record stream builder and self-report detector\<close>

definition VALID_SELF_REPORT_EVENT_TYPES :: "int set" where
  "VALID_SELF_REPORT_EVENT_TYPES = {1, 2}"

text \<open>\<^verbatim>\<open>event_type in VALID_SELF_REPORT_EVENT_TYPES\<close>: membership in a set hashes the value,
  and a list is unhashable.\<close>

fun in_valid_types :: "pyval \<Rightarrow> error + bool" where
  "in_valid_types (PInt n) = Inr (n \<in> VALID_SELF_REPORT_EVENT_TYPES)"
| "in_valid_types (PList vs) = Inl TypeError"
| "in_valid_types _ = Inr False"

text \<open>A row of \<^verbatim>\<open>df_event_self_reports\<close>. The column \<^verbatim>\<open>end_timestamp\<close> holds the string
  \<^verbatim>\<open>'NAN'\<close> until the event is switched off.\<close>

datatype end_mark = NAN | EndAt datetime

record self_report =
  start_timestamp :: datetime
  end_timestamp :: end_mark
  event_type :: pyval

text \<open>\<^verbatim>\<open>_process_self_reports\<close>. \<^verbatim>\<open>df.index[-1]\<close> raises on a table without rows.\<close>

definition process_self_reports ::
  "datetime \<Rightarrow> pyval \<Rightarrow> self_report list \<Rightarrow> bool \<Rightarrow> pyval \<Rightarrow> error + (self_report list \<times> bool)" where
  "process_self_reports timestamp event_type' df_event_self_reports is_event_active is_event_active_Field =
     (case in_valid_types event_type' of Inl e \<Rightarrow> Inl e
      | Inr valid \<Rightarrow>
         if valid then
           (if (\<not> is_event_active) \<and> py_eq_int is_event_active_Field 1 then
              Inr (df_event_self_reports @
                     [\<lparr>start_timestamp = timestamp, end_timestamp = NAN, event_type = event_type'\<rparr>],
                   True)
            else if is_event_active \<and> py_eq_int is_event_active_Field 0 then
              (if df_event_self_reports = [] then Inl IndexError
               else Inr (butlast df_event_self_reports @
                           [(last df_event_self_reports)\<lparr>end_timestamp := EndAt timestamp\<rparr>],
                         False))
            else Inr (df_event_self_reports, is_event_active))
         else Inr (df_event_self_reports, is_event_active))"

text \<open>
  \<^verbatim>\<open>datetime.datetime.fromtimestamp(n)\<close> for an integer number of seconds: exact from 1970
  up to a day before the end of the year 9999; an exception (\<^verbatim>\<open>ValueError\<close> or
  \<^verbatim>\<open>OverflowError\<close>, both caught by the caller) more than a day past the end of the year
  9999 or before the year 1; the platform's result in between.
\<close>

definition fromtimestamp :: "platform \<Rightarrow> int \<Rightarrow> error + datetime" where
  "fromtimestamp pf n =
     (if 0 \<le> n \<and> n < 253402214400 then Inr (n * 1000000)
      else if 253402387200 \<le> n \<or> n \<le> - 62135683200 then Inl ValueError
      else fromtimestamp_far pf n)"

text \<open>The conversion of \<^verbatim>\<open>timestamp_raw\<close>, which is not \<^verbatim>\<open>None\<close> here: an integer counts
  seconds, a \<^verbatim>\<open>datetime\<close> is kept, anything else goes through \<^verbatim>\<open>int()\<close>.\<close>

definition convert_timestamp :: "platform \<Rightarrow> pyval \<Rightarrow> error + datetime" where
  "convert_timestamp pf timestamp_raw =
     (case timestamp_raw of
        PInt n \<Rightarrow> fromtimestamp pf n
      | PDate d \<Rightarrow> Inr d
      | PStr s \<Rightarrow> (case int_of_str pf s of Inl e \<Rightarrow> Inl e | Inr n \<Rightarrow> fromtimestamp pf n)
      | PList vs \<Rightarrow> Inl TypeError
      | PNone \<Rightarrow> Inl TypeError)"

text \<open>\<^verbatim>\<open>dev_fields[0] if dev_fields else None\<close>\<close>

definition first_dev_field :: "pyval \<Rightarrow> error + pyval" where
  "first_dev_field dev_fields = (if py_truthy dev_fields then py_index dev_fields 0 else Inr PNone)"

text \<open>\<^verbatim>\<open>str(dev_field) if dev_field is not None else None\<close>; \<open>Str v\<close> stands for the string
  \<^verbatim>\<open>str(v)\<close>.\<close>

datatype cell = Missing | Str pyval

definition developer_cell :: "pyval \<Rightarrow> cell" where
  "developer_cell dev_field = (if dev_field \<noteq> PNone then Str dev_field else Missing)"

text \<open>The variables of the walk over the record messages.\<close>

record walk =
  timestamps :: "datetime list"
  heart_rates :: "pyval list"
  developer_fields :: "cell list"
  self_reports :: "self_report list"
  event_active :: bool

definition init_walk :: walk where
  "init_walk = \<lparr>timestamps = [], heart_rates = [], developer_fields = [], self_reports = [],
                 event_active = False\<rparr>"

text \<open>The body of the loop over the records. The three \<^verbatim>\<open>append\<close>s come before the
  reads of \<^verbatim>\<open>dev_fields[1]\<close> and \<^verbatim>\<open>dev_fields[2]\<close>, so an exception raised by those or by
  \<^verbatim>\<open>_process_self_reports\<close> leaves the row appended.\<close>

definition record_step :: "platform \<Rightarrow> mesg \<Rightarrow> walk \<Rightarrow> walk" where
  "record_step pf r w =
     (let timestamp_raw = dict_get r ''timestamp'' PNone in
      if timestamp_raw = PNone then w else
      (case convert_timestamp pf timestamp_raw of Inl e \<Rightarrow> w | Inr timestamp \<Rightarrow>
      (let heart_rate = dict_get r ''heart_rate'' PNone;
           dev_fields = dict_get r ''developer_fields'' (PList [])
       in (case first_dev_field dev_fields of Inl e \<Rightarrow> w | Inr dev_field \<Rightarrow>
          (let w1 = w\<lparr>timestamps := timestamps w @ [timestamp],
                       heart_rates := heart_rates w @ [heart_rate],
                       developer_fields := developer_fields w @ [developer_cell dev_field]\<rparr>
           in (case py_index dev_fields 1 of Inl e \<Rightarrow> w1 | Inr is_event_active_Field \<Rightarrow>
              (case py_index dev_fields 2 of Inl e \<Rightarrow> w1 | Inr event_type' \<Rightarrow>
              (case process_self_reports timestamp event_type' (self_reports w1) (event_active w1)
                      is_event_active_Field of
                 Inl e \<Rightarrow> w1
               | Inr (df, active) \<Rightarrow> w1\<lparr>self_reports := df, event_active := active\<rparr>))))))))"

fun record_loop :: "platform \<Rightarrow> mesg list \<Rightarrow> walk \<Rightarrow> walk" where
  "record_loop pf [] w = w"
| "record_loop pf (r # rs) w = record_loop pf rs (record_step pf r w)"

text \<open>The DataFrame of the records, by its columns.\<close>

record record_df =
  col_timestamp :: "datetime list"
  col_heart_rate :: "pyval list"
  col_developer_field :: "cell list"

text \<open>\<^verbatim>\<open>_extract_record_data_fast\<close>: \<^verbatim>\<open>None\<close> when there is no record message type or no row,
  a pair of tables otherwise.\<close>

definition extract_record_data_fast ::
  "platform \<Rightarrow> messages \<Rightarrow> (record_df \<times> self_report list) option" where
  "extract_record_data_fast pf msgs =
     (case msgs ''record_mesgs'' of None \<Rightarrow> None
      | Some record_messages \<Rightarrow>
         (let w = record_loop pf record_messages init_walk
          in if timestamps w = [] then None
             else Some (\<lparr>col_timestamp = timestamps w, col_heart_rate = heart_rates w,
                          col_developer_field = developer_fields w\<rparr>,
                        self_reports w)))"

section \<open>File processing unit and batch orchestrator\<close>

text \<open>The four output files of one input file, and what \<^verbatim>\<open>to_csv\<close> wrote to them. Writing is
  taken to succeed; the printed messages and the elapsed times are not modelled.\<close>

datatype csv_path = accel_csv_path | gyro_csv_path | record_csv_path | self_report_csv_path

datatype table = SensorTable sensor_df | RecordTable record_df | SelfReportTable "self_report list"

type_synonym written = "(csv_path \<times> table) list"

text \<open>One sensor output of \<^verbatim>\<open>process_to_csv\<close>: the file written, if any, and the entry
  appended to \<^verbatim>\<open>paths\<close>.\<close>

definition write_sensor :: "csv_path \<Rightarrow> sensor_df option \<Rightarrow> written \<times> csv_path option list" where
  "write_sensor path df =
     (case df of Some d \<Rightarrow> ([(path, SensorTable d)], [Some path]) | None \<Rightarrow> ([], [None]))"

text \<open>\<^verbatim>\<open>process_to_csv\<close>, from what the decoder yields: \<open>None\<close> when \<^verbatim>\<open>decode_file\<close> returns
  \<^verbatim>\<open>False\<close>. The result is the files written and either the tuple of paths or the exception
  raised. The statement
  \<^verbatim>\<open>record_df, self_report_event_df = self._extract_record_data_fast()\<close> raises
  \<^verbatim>\<open>TypeError\<close> when the call returns \<^verbatim>\<open>None\<close>; otherwise both are tables, so neither of the
  two \<^verbatim>\<open>else\<close> branches that follow is taken.\<close>

definition process_to_csv ::
  "platform \<Rightarrow> messages option \<Rightarrow> written \<times> (error + csv_path option list)" where
  "process_to_csv pf decoded =
     (case decoded of None \<Rightarrow> ([], Inr [None, None, None])
      | Some msgs \<Rightarrow>
         (case extract_sensor_data_fast pf msgs ''accelerometer'' of Inl e \<Rightarrow> ([], Inl e)
          | Inr accel_df \<Rightarrow>
         (case extract_sensor_data_fast pf msgs ''gyroscope'' of
            Inl e \<Rightarrow> (fst (write_sensor accel_csv_path accel_df), Inl e)
          | Inr gyro_df \<Rightarrow>
         (let files = fst (write_sensor accel_csv_path accel_df) @ fst (write_sensor gyro_csv_path gyro_df);
              paths = snd (write_sensor accel_csv_path accel_df) @ snd (write_sensor gyro_csv_path gyro_df)
          in (case extract_record_data_fast pf msgs of
                None \<Rightarrow> (files, Inl TypeError)
              | Some (record_df, self_report_event_df) \<Rightarrow>
                 (files @ [(record_csv_path, RecordTable record_df),
                           (self_report_csv_path, SelfReportTable self_report_event_df)],
                  Inr (paths @ [Some record_csv_path, Some self_report_csv_path])))))))"

text \<open>\<^verbatim>\<open>process_single_file\<close>: \<^verbatim>\<open>any(path is not None for path in results)\<close>.\<close>

definition process_single_file ::
  "platform \<Rightarrow> messages option \<Rightarrow> written \<times> (error + bool)" where
  "process_single_file pf decoded =
     (case process_to_csv pf decoded of
        (files, Inl e) \<Rightarrow> (files, Inl e)
      | (files, Inr results) \<Rightarrow> (files, Inr (list_ex (\<lambda>path. path \<noteq> None) results)))"

text \<open>A FIT file of the input directory: its name and what the decoder yields for it.\<close>

type_synonym fit_file = "string \<times> messages option"

text \<open>The sequential branch of \<^verbatim>\<open>process_all_files\<close>: the call of \<^verbatim>\<open>process_single_file\<close> is
  not inside a \<^verbatim>\<open>try\<close>, so an exception ends the loop and the function.\<close>

fun sequential_loop ::
  "platform \<Rightarrow> fit_file list \<Rightarrow> (string \<times> written) list \<Rightarrow> nat
     \<Rightarrow> (string \<times> written) list \<times> (error + nat)" where
  "sequential_loop pf [] outputs success_count = (outputs, Inr success_count)"
| "sequential_loop pf (fit_file # rest) outputs success_count =
     (case process_single_file pf (snd fit_file) of
        (files, Inl e) \<Rightarrow> (outputs @ [(fst fit_file, files)], Inl e)
      | (files, Inr success) \<Rightarrow>
          sequential_loop pf rest (outputs @ [(fst fit_file, files)])
            (if success then success_count + 1 else success_count))"

text \<open>The branch with the process pool: every file is submitted, and \<^verbatim>\<open>future.result()\<close> is
  inside a \<^verbatim>\<open>try\<close> whose handler only prints. The futures are taken here in the order of
  submission; \<^verbatim>\<open>as_completed\<close> yields them in the order they finish.\<close>

fun pool_loop ::
  "platform \<Rightarrow> fit_file list \<Rightarrow> (string \<times> written) list \<Rightarrow> nat
     \<Rightarrow> (string \<times> written) list \<times> nat" where
  "pool_loop pf [] outputs success_count = (outputs, success_count)"
| "pool_loop pf (fit_file # rest) outputs success_count =
     (case process_single_file pf (snd fit_file) of
        (files, Inl e) \<Rightarrow> pool_loop pf rest (outputs @ [(fst fit_file, files)]) success_count
      | (files, Inr success) \<Rightarrow>
          pool_loop pf rest (outputs @ [(fst fit_file, files)])
            (if success then success_count + 1 else success_count))"

text \<open>\<^verbatim>\<open>process_all_files\<close>: the files written for each input file, and either the exception
  that left the function or the two numbers of the last printed line (none when no file was
  found).\<close>

definition process_all_files ::
  "platform \<Rightarrow> bool \<Rightarrow> fit_file list
     \<Rightarrow> (string \<times> written) list \<times> (error + (nat \<times> nat) option)" where
  "process_all_files pf use_multiprocessing fit_files =
     (if fit_files = [] then ([], Inr None)
      else if use_multiprocessing \<and> length fit_files > 1 then
        (case pool_loop pf fit_files [] 0 of
           (outputs, success_count) \<Rightarrow> (outputs, Inr (Some (success_count, length fit_files))))
      else
        (case sequential_loop pf fit_files [] 0 of
           (outputs, Inl e) \<Rightarrow> (outputs, Inl e)
         | (outputs, Inr success_count) \<Rightarrow>
             (outputs, Inr (Some (success_count, length fit_files)))))"

section \<open>Notions of the specification\<close>

text \<open>A valid sample group has an integer base timestamp (or none), a list of integer
  offsets and three lists of axis values of the same length as the offsets.\<close>

definition group_base :: "mesg \<Rightarrow> int" where
  "group_base g = (case g ''timestamp_ms'' of Some (PInt b) \<Rightarrow> b | _ \<Rightarrow> 0)"

definition group_offsets :: "mesg \<Rightarrow> int list" where
  "group_offsets g =
     (case g ''sample_time_offset'' of
        Some (PList vs) \<Rightarrow> map (\<lambda>v. case v of PInt n \<Rightarrow> n | _ \<Rightarrow> 0) vs
      | _ \<Rightarrow> [])"

definition group_axis :: "string \<Rightarrow> mesg \<Rightarrow> pyval list" where
  "group_axis k g = (case g k of Some (PList vs) \<Rightarrow> vs | _ \<Rightarrow> [])"

fun is_int :: "pyval \<Rightarrow> bool" where
  "is_int (PInt n) = True"
| "is_int _ = False"

fun is_list :: "pyval option \<Rightarrow> bool" where
  "is_list (Some (PList vs)) = True"
| "is_list _ = False"

definition valid_group :: "string \<Rightarrow> mesg \<Rightarrow> bool" where
  "valid_group axis g \<longleftrightarrow>
     (case g ''timestamp_ms'' of None \<Rightarrow> True | Some v \<Rightarrow> is_int v) \<and>
     (case g ''sample_time_offset'' of Some (PList vs) \<Rightarrow> list_all is_int vs | _ \<Rightarrow> False) \<and>
     is_list (g (axis @ ''_x'')) \<and> is_list (g (axis @ ''_y'')) \<and> is_list (g (axis @ ''_z'')) \<and>
     length (group_axis (axis @ ''_x'') g) = length (group_offsets g) \<and>
     length (group_axis (axis @ ''_y'') g) = length (group_offsets g) \<and>
     length (group_axis (axis @ ''_z'') g) = length (group_offsets g)"

text \<open>
  The timestamps of a group are representable when its base lies from 1970 up to 2^33
  seconds, where the conversion of the base is exact, and every offset makes a
  \<^verbatim>\<open>timedelta\<close> and, added to the base, a date of the years 1 to 9999.
\<close>

definition offset_ok :: "int \<Rightarrow> int \<Rightarrow> bool" where
  "offset_ok b off \<longleftrightarrow>
     - 999999999 \<le> off div 86400000 \<and> off div 86400000 \<le> 999999999 \<and>
     DATETIME_MIN \<le> (b + off) * 1000 \<and> (b + off) * 1000 \<le> DATETIME_MAX"

definition representable :: "mesg \<Rightarrow> bool" where
  "representable g \<longleftrightarrow>
     0 \<le> group_base g \<and> group_base g < 8589934592000 \<and>
     list_all (offset_ok (group_base g)) (group_offsets g)"

text \<open>The length of a field of a group, as the consistency check reads it.\<close>

definition field_len :: "mesg \<Rightarrow> string \<Rightarrow> error + nat" where
  "field_len g k = py_len (dict_get g k (PList []))"

text \<open>Two tables one after the other.\<close>

definition append_df :: "sensor_df \<Rightarrow> sensor_df \<Rightarrow> sensor_df" where
  "append_df a b =
     \<lparr>all_timestamps = all_timestamps a @ all_timestamps b, all_x = all_x a @ all_x b,
      all_y = all_y a @ all_y b, all_z = all_z a @ all_z b\<rparr>"

text \<open>The columns of a table have one length.\<close>

definition aligned :: "sensor_df \<Rightarrow> bool" where
  "aligned df \<longleftrightarrow> length (all_x df) = length (all_timestamps df)
     \<and> length (all_y df) = length (all_timestamps df)
     \<and> length (all_z df) = length (all_timestamps df)"


text \<open>The timestamp of a record, when it has one that converts.\<close>

definition record_time :: "platform \<Rightarrow> mesg \<Rightarrow> datetime option" where
  "record_time pf r =
     (let timestamp_raw = dict_get r ''timestamp'' PNone in
      if timestamp_raw = PNone then None
      else (case convert_timestamp pf timestamp_raw of Inl e \<Rightarrow> None | Inr t \<Rightarrow> Some t))"

text \<open>The developer field at a position: position 1 is the active flag, position 2 the
  event-type code.\<close>

definition aux_field :: "mesg \<Rightarrow> nat \<Rightarrow> error + pyval" where
  "aux_field r i = py_index (dict_get r ''developer_fields'' (PList [])) i"

text \<open>An interval is open while its end is the marker.\<close>

definition is_open :: "self_report \<Rightarrow> bool" where
  "is_open iv \<longleftrightarrow> end_timestamp iv = NAN"

text \<open>The row a record contributes, if any, and what the record does to the detector (the
  table of intervals and the flag), read off \<open>record_step\<close>.\<close>

definition record_row :: "platform \<Rightarrow> mesg \<Rightarrow> (datetime \<times> pyval \<times> cell) option" where
  "record_row pf r =
     (case record_time pf r of None \<Rightarrow> None
      | Some t \<Rightarrow>
         (case first_dev_field (dict_get r ''developer_fields'' (PList [])) of Inl e \<Rightarrow> None
          | Inr d \<Rightarrow> Some (t, dict_get r ''heart_rate'' PNone, developer_cell d)))"

definition detector_step ::
  "datetime \<Rightarrow> mesg \<Rightarrow> self_report list \<times> bool \<Rightarrow> self_report list \<times> bool" where
  "detector_step t r s =
     (case aux_field r 1 of Inl e \<Rightarrow> s | Inr flag \<Rightarrow>
     (case aux_field r 2 of Inl e \<Rightarrow> s | Inr c \<Rightarrow>
     (case process_self_reports t c (fst s) (snd s) flag of Inl e \<Rightarrow> s | Inr s' \<Rightarrow> s')))"

definition detector_record ::
  "platform \<Rightarrow> mesg \<Rightarrow> self_report list \<times> bool \<Rightarrow> self_report list \<times> bool" where
  "detector_record pf r s =
     (case record_row pf r of None \<Rightarrow> s | Some row \<Rightarrow> detector_step (fst row) r s)"

fun detector_loop ::
  "platform \<Rightarrow> mesg list \<Rightarrow> self_report list \<times> bool \<Rightarrow> self_report list \<times> bool" where
  "detector_loop pf [] s = s"
| "detector_loop pf (r # rs) s = detector_loop pf rs (detector_record pf r s)"

definition rows_of :: "platform \<Rightarrow> mesg list \<Rightarrow> (datetime \<times> pyval \<times> cell) list" where
  "rows_of pf rs = List.map_filter (record_row pf) rs"

text \<open>A record opens an interval: it has the interval's start as its timestamp, an active flag
  equal to 1 and the interval's event-type code, which is a recognised one.\<close>

definition opens :: "platform \<Rightarrow> mesg \<Rightarrow> self_report \<Rightarrow> bool" where
  "opens pf r iv \<longleftrightarrow>
     record_time pf r = Some (start_timestamp iv) \<and>
     (case aux_field r 1 of Inl e \<Rightarrow> False | Inr flag \<Rightarrow> py_eq_int flag 1) \<and>
     aux_field r 2 = Inr (event_type iv) \<and>
     in_valid_types (event_type iv) = Inr True \<and>
     end_timestamp iv = NAN"

text \<open>What the detector keeps true: no interval is open while it is idle; while it is active
  exactly one is, the last one.\<close>

definition detector_inv :: "self_report list \<times> bool \<Rightarrow> bool" where
  "detector_inv s \<longleftrightarrow>
     length (filter is_open (fst s)) = (if snd s then 1 else 0) \<and>
     (\<not> snd s \<or> (fst s \<noteq> [] \<and> is_open (last (fst s))))"

section \<open>Example inputs\<close>

text \<open>A group of two accelerometer samples with the given x values, with or without a base
  timestamp.\<close>

definition accel_group :: "int option \<Rightarrow> pyval list \<Rightarrow> mesg" where
  "accel_group base xs =
     [''sample_time_offset'' \<mapsto> PList [PInt 0, PInt 10],
      ''calibrated_accel_x'' \<mapsto> PList xs,
      ''calibrated_accel_y'' \<mapsto> PList [PInt 3, PInt 4],
      ''calibrated_accel_z'' \<mapsto> PList [PInt 5, PInt 6]]
     ++ (case base of None \<Rightarrow> Map.empty | Some b \<Rightarrow> [''timestamp_ms'' \<mapsto> PInt b])"

text \<open>A platform that raises wherever the model leaves the result to the platform.\<close>

definition strict_platform :: platform where
  "strict_platform =
     \<lparr>int_of_str = (\<lambda>s. Inl ValueError), fromtimestamp_far = (\<lambda>n. Inl ValueError),
      fromtimestamp_ms_far = (\<lambda>b. Inl ValueError)\<rparr>"

text \<open>A record with a timestamp in seconds, a heart rate and a list of developer fields, and
  one whose developer fields are any value.\<close>

definition report_record :: "int \<Rightarrow> pyval list \<Rightarrow> mesg" where
  "report_record t devs =
     [''timestamp'' \<mapsto> PInt t, ''heart_rate'' \<mapsto> PInt 60, ''developer_fields'' \<mapsto> PList devs]"

definition odd_record :: "int \<Rightarrow> pyval \<Rightarrow> mesg" where
  "odd_record t dev_fields =
     [''timestamp'' \<mapsto> PInt t, ''heart_rate'' \<mapsto> PInt 60, ''developer_fields'' \<mapsto> dev_fields]"

text \<open>A group of accelerometer samples without a base timestamp, with the given offsets and
  zero for every axis value.\<close>

definition offsets_group :: "int list \<Rightarrow> mesg" where
  "offsets_group offs =
     [''sample_time_offset'' \<mapsto> PList (map PInt offs),
      ''calibrated_accel_x'' \<mapsto> PList (map (\<lambda>off. PInt 0) offs),
      ''calibrated_accel_y'' \<mapsto> PList (map (\<lambda>off. PInt 0) offs),
      ''calibrated_accel_z'' \<mapsto> PList (map (\<lambda>off. PInt 0) offs)]"

section \<open>The sample-group expander\<close>

lemma offset_timestamps_ints:
  assumes "list_all is_int vs"
    and "list_all (offset_ok b) (map (\<lambda>v. case v of PInt n \<Rightarrow> n | _ \<Rightarrow> 0) vs)"
  shows "offset_timestamps (b * 1000) vs =
     Inr (map (\<lambda>v. (b + (case v of PInt n \<Rightarrow> n | _ \<Rightarrow> 0)) * 1000) vs)"
  using assms
proof (induction vs)
  case Nil
  then show ?case by simp
next
  case (Cons v vs)
  then obtain n where v: "v = PInt n" by (cases v) simp_all
  have ok: "offset_ok b n" using Cons.prems(2) v by simp
  then have td: "timedelta_ms (PInt n) = Inr (n * 1000)" by (simp add: offset_ok_def)
  have "b * 1000 + n * 1000 = (b + n) * 1000" by (simp add: algebra_simps)
  then have add: "datetime_add (b * 1000) (n * 1000) = Inr ((b + n) * 1000)"
    using ok by (simp add: offset_ok_def datetime_add_def)
  have "offset_timestamps (b * 1000) vs =
     Inr (map (\<lambda>v. (b + (case v of PInt n \<Rightarrow> n | _ \<Rightarrow> 0)) * 1000) vs)"
    using Cons by simp
  then show ?case unfolding v by (simp add: td add del: timedelta_ms.simps)
qed

lemma offset_timestamps_length:
  "offset_timestamps b vs = Inr ts \<Longrightarrow> length ts = length vs"
  by (induction vs arbitrary: ts) (auto split: sum.splits)

lemma py_len_iter: "py_len v = Inr n \<Longrightarrow> \<exists>vs. py_iter v = Inr vs \<and> length vs = n"
  by (cases v) auto

lemma consistent_True:
  "consistent xv yv zv ov = Inr True \<longleftrightarrow>
   (\<exists>n. py_len xv = Inr n \<and> py_len yv = Inr n \<and> py_len zv = Inr n \<and> py_len ov = Inr n)"
  by (auto simp: consistent_def split: sum.splits)

lemma group_step_append:
  "group_step pf axis g acc = append_df acc (group_step pf axis g empty_sensor_df)"
  by (simp add: group_step_def append_df_def empty_sensor_df_def Let_def
      split: sum.splits)


lemma append_df_empty [simp]: "append_df a empty_sensor_df = a" "append_df empty_sensor_df a = a"
  by (simp_all add: append_df_def empty_sensor_df_def)


lemma sensor_loop_app:
  "sensor_loop pf axis (gs @ hs) acc = sensor_loop pf axis hs (sensor_loop pf axis gs acc)"
  by (induction gs arbitrary: acc) simp_all

lemma is_list_cases: "is_list v \<Longrightarrow> \<exists>vs. v = Some (PList vs)"
  by (erule is_list.elims) simp

lemma valid_group_base:
  "valid_group axis g \<Longrightarrow> dict_get g ''timestamp_ms'' (PInt 0) = PInt (group_base g)"
  by (auto simp: valid_group_def dict_get_def group_base_def
      split: option.splits elim: is_int.elims)

lemma valid_group_offsets:
  assumes "valid_group axis g"
  obtains vs where "g ''sample_time_offset'' = Some (PList vs)" "list_all is_int vs"
    "group_offsets g = map (\<lambda>v. case v of PInt n \<Rightarrow> n | _ \<Rightarrow> 0) vs"
  using assms
  by (auto simp: valid_group_def group_offsets_def split: option.splits pyval.splits)

lemma valid_group_axis:
  assumes "valid_group axis g" and "sfx \<in> {''_x'', ''_y'', ''_z''}"
  shows "g (axis @ sfx) = Some (PList (group_axis (axis @ sfx) g))
     \<and> length (group_axis (axis @ sfx) g) = length (group_offsets g)"
proof -
  have "is_list (g (axis @ sfx))"
    and len: "length (group_axis (axis @ sfx) g) = length (group_offsets g)"
    using assms by (auto simp: valid_group_def)
  then obtain vs where "g (axis @ sfx) = Some (PList vs)"
    using is_list_cases by blast
  then show ?thesis using len by (simp add: group_axis_def)
qed

lemma group_step_valid:
  assumes v: "valid_group axis g" and r: "representable g"
  shows "group_step pf axis g acc =
     \<lparr>all_timestamps = all_timestamps acc @ map (\<lambda>off. (group_base g + off) * 1000) (group_offsets g),
      all_x = all_x acc @ group_axis (axis @ ''_x'') g,
      all_y = all_y acc @ group_axis (axis @ ''_y'') g,
      all_z = all_z acc @ group_axis (axis @ ''_z'') g\<rparr>"
proof -
  obtain vs where offs: "g ''sample_time_offset'' = Some (PList vs)" "list_all is_int vs"
    and go: "group_offsets g = map (\<lambda>v. case v of PInt n \<Rightarrow> n | _ \<Rightarrow> 0) vs"
    using v by (rule valid_group_offsets)
  have gx: "dict_get g (axis @ ''_x'') (PList []) = PList (group_axis (axis @ ''_x'') g)"
    and gy: "dict_get g (axis @ ''_y'') (PList []) = PList (group_axis (axis @ ''_y'') g)"
    and gz: "dict_get g (axis @ ''_z'') (PList []) = PList (group_axis (axis @ ''_z'') g)"
    and go': "dict_get g ''sample_time_offset'' (PList []) = PList vs"
    using valid_group_axis [OF v] offs by (simp_all add: dict_get_def)
  have lens: "length (group_axis (axis @ ''_x'') g) = length vs"
    "length (group_axis (axis @ ''_y'') g) = length vs"
    "length (group_axis (axis @ ''_z'') g) = length vs"
    using valid_group_axis [OF v] go by simp_all
  have c: "consistent (PList (group_axis (axis @ ''_x'') g)) (PList (group_axis (axis @ ''_y'') g))
      (PList (group_axis (axis @ ''_z'') g)) (PList vs) = Inr True"
    using lens by (simp add: consistent_def)
  have base: "fromtimestamp_ms pf (PInt (group_base g)) = Inr (group_base g * 1000)"
    using r by (simp add: representable_def)
  have "list_all (offset_ok (group_base g)) (map (\<lambda>v. case v of PInt n \<Rightarrow> n | _ \<Rightarrow> 0) vs)"
    using r go by (simp add: representable_def)
  then have ts: "offset_timestamps (group_base g * 1000) vs =
      Inr (map (\<lambda>off. (group_base g + off) * 1000) (group_offsets g))"
    using offset_timestamps_ints [OF offs(2)] go by (simp add: comp_def)
  show ?thesis
    unfolding group_step_def gx gy gz go' valid_group_base [OF v] Let_def
    by (simp add: c ts base del: fromtimestamp_ms.simps)
qed

lemma accel_group_fields:
  "accel_group base xs ''sample_time_offset'' = Some (PList [PInt 0, PInt 10])"
  "accel_group base xs ''calibrated_accel_x'' = Some (PList xs)"
  "accel_group base xs ''calibrated_accel_y'' = Some (PList [PInt 3, PInt 4])"
  "accel_group base xs ''calibrated_accel_z'' = Some (PList [PInt 5, PInt 6])"
  "accel_group base xs ''timestamp_ms'' = map_option PInt base"
  by (simp_all add: accel_group_def map_add_def split: option.splits)

lemma accel_group_valid:
  "length xs = 2 \<Longrightarrow> valid_group ''calibrated_accel'' (accel_group base xs)"
  by (cases base) (simp_all add: valid_group_def accel_group_fields group_axis_def group_offsets_def)

lemma accel_group_parts:
  "group_offsets (accel_group base xs) = [0, 10]"
  "group_base (accel_group (Some b) xs) = b"
  "group_base (accel_group None xs) = 0"
  "group_axis ''calibrated_accel_x'' (accel_group base xs) = xs"
  "group_axis ''calibrated_accel_y'' (accel_group base xs) = [PInt 3, PInt 4]"
  "group_axis ''calibrated_accel_z'' (accel_group base xs) = [PInt 5, PInt 6]"
  by (simp_all add: accel_group_fields group_axis_def group_offsets_def group_base_def)

lemma accel_group_representable:
  "0 \<le> b \<Longrightarrow> b < 8589934592000 \<Longrightarrow> representable (accel_group (Some b) xs)"
  "representable (accel_group None xs)"
  by (simp_all add: representable_def accel_group_parts offset_ok_def DATETIME_MIN_def
      DATETIME_MAX_def)








lemma consistent_False:
  assumes "field_len g (axis @ ''_x'') = Inr lx" and "field_len g (axis @ ''_y'') = Inr ly"
    and "field_len g (axis @ ''_z'') = Inr lz" and "field_len g ''sample_time_offset'' = Inr lo"
    and "\<not> (lx = ly \<and> ly = lz \<and> lz = lo)"
  shows "consistent (dict_get g (axis @ ''_x'') (PList [])) (dict_get g (axis @ ''_y'') (PList []))
           (dict_get g (axis @ ''_z'') (PList [])) (dict_get g ''sample_time_offset'' (PList []))
         = Inr False"
  using assms by (auto simp: consistent_def field_len_def)

lemma group_step_mismatched:
  assumes "field_len g (axis @ ''_x'') = Inr lx" and "field_len g (axis @ ''_y'') = Inr ly"
    and "field_len g (axis @ ''_z'') = Inr lz" and "field_len g ''sample_time_offset'' = Inr lo"
    and "\<not> (lx = ly \<and> ly = lz \<and> lz = lo)"
  shows "group_step pf axis g acc = acc"
  unfolding group_step_def Let_def consistent_False [OF assms] by simp

lemma group_step_rows_aligned: "aligned (group_step pf axis g empty_sensor_df)"
proof (cases "consistent (dict_get g (axis @ ''_x'') (PList [])) (dict_get g (axis @ ''_y'') (PList []))
           (dict_get g (axis @ ''_z'') (PList [])) (dict_get g ''sample_time_offset'' (PList [])) = Inr True")
  case True
  then obtain n where n: "py_len (dict_get g (axis @ ''_x'') (PList [])) = Inr n"
      "py_len (dict_get g (axis @ ''_y'') (PList [])) = Inr n"
      "py_len (dict_get g (axis @ ''_z'') (PList [])) = Inr n"
      "py_len (dict_get g ''sample_time_offset'' (PList [])) = Inr n"
    unfolding consistent_True by blast
  obtain xs ys zs offs where it:
      "py_iter (dict_get g (axis @ ''_x'') (PList [])) = Inr xs" "length xs = n"
      "py_iter (dict_get g (axis @ ''_y'') (PList [])) = Inr ys" "length ys = n"
      "py_iter (dict_get g (axis @ ''_z'') (PList [])) = Inr zs" "length zs = n"
      "py_iter (dict_get g ''sample_time_offset'' (PList [])) = Inr offs" "length offs = n"
    using n [THEN py_len_iter] by blast
  show ?thesis
    unfolding group_step_def Let_def True it
    by (auto simp: aligned_def empty_sensor_df_def it dest: offset_timestamps_length
        split: sum.splits)
next
  case False
  then show ?thesis
    unfolding group_step_def Let_def
    by (auto simp: aligned_def empty_sensor_df_def split: sum.splits)
qed

lemma aligned_append_df: "aligned a \<Longrightarrow> aligned b \<Longrightarrow> aligned (append_df a b)"
  by (simp add: aligned_def append_df_def)

lemma sensor_loop_aligned: "aligned acc \<Longrightarrow> aligned (sensor_loop pf axis gs acc)"
proof (induction gs arbitrary: acc)
  case Nil
  then show ?case by simp
next
  case (Cons g gs)
  have "aligned (group_step pf axis g acc)"
    using Cons.prems group_step_rows_aligned [of pf axis g] group_step_append [of pf axis g acc]
    by (simp add: aligned_append_df)
  then show ?case using Cons.IH by simp
qed

text \<open>
  C7. A group whose x, y, z and offset sequences do not all have the same length adds no row,
  and the table built from a sequence of groups that contains it is the table built from the
  sequence without it.
\<close>

theorem mismatched_group_dropped:
  assumes "field_len g (axis @ ''_x'') = Inr lx" and "field_len g (axis @ ''_y'') = Inr ly"
    and "field_len g (axis @ ''_z'') = Inr lz" and "field_len g ''sample_time_offset'' = Inr lo"
    and "\<not> (lx = ly \<and> ly = lz \<and> lz = lo)"
  shows "group_step pf axis g acc = acc
       \<and> sensor_loop pf axis (pre @ g # post) acc = sensor_loop pf axis (pre @ post) acc
       \<and> (sensor_keys sensor_type = Inr (key, axis) \<longrightarrow>
            extract_sensor_data_fast pf (msgs(key \<mapsto> pre @ g # post)) sensor_type =
            extract_sensor_data_fast pf (msgs(key \<mapsto> pre @ post)) sensor_type)"
proof -
  have step: "group_step pf axis g a = a" for a
    by (rule group_step_mismatched [OF assms])
  have loop: "sensor_loop pf axis (pre @ g # post) a = sensor_loop pf axis (pre @ post) a" for a
    by (simp add: sensor_loop_app step)
  show ?thesis
    using step [of acc] loop [of acc] loop [of empty_sensor_df]
    by (simp add: extract_sensor_data_fast_def)
qed

theorem mismatched_group_dropped_witness:
  "field_len (accel_group (Some 1000) [PInt 1]) ''calibrated_accel_x'' = Inr 1
   \<and> field_len (accel_group (Some 1000) [PInt 1]) ''calibrated_accel_y'' = Inr 2
   \<and> \<not> ((1::nat) = 2 \<and> (2::nat) = 2 \<and> (2::nat) = 2)
   \<and> sensor_keys ''accelerometer'' = Inr (''accelerometer_data_mesgs'', ''calibrated_accel'')
   \<and> extract_sensor_data_fast strict_platform
        [''accelerometer_data_mesgs'' \<mapsto>
           [accel_group (Some 1000) [PInt 1], accel_group (Some 500) [PInt 7, PInt 8]]]
        ''accelerometer'' =
       Inr (Some \<lparr>all_timestamps = [500000, 510000], all_x = [PInt 7, PInt 8],
                  all_y = [PInt 3, PInt 4], all_z = [PInt 5, PInt 6]\<rparr>)"
proof -
  let ?g = "accel_group (Some 1000) [PInt 1]"
  let ?h = "accel_group (Some 500) [PInt 7, PInt 8]"
  have l: "field_len ?g ''calibrated_accel_x'' = Inr 1" "field_len ?g ''calibrated_accel_y'' = Inr 2"
    "field_len ?g ''calibrated_accel_z'' = Inr 2" "field_len ?g ''sample_time_offset'' = Inr 2"
    by (simp_all add: field_len_def dict_get_def accel_group_fields)
  have ne: "\<not> ((1::nat) = 2 \<and> (2::nat) = 2 \<and> (2::nat) = 2)" by simp
  have k: "sensor_keys ''accelerometer'' = Inr (''accelerometer_data_mesgs'', ''calibrated_accel'')"
    by (simp add: sensor_keys_def)
  have l': "field_len ?g (''calibrated_accel'' @ ''_x'') = Inr 1"
    "field_len ?g (''calibrated_accel'' @ ''_y'') = Inr 2"
    "field_len ?g (''calibrated_accel'' @ ''_z'') = Inr 2"
    using l by simp_all
  have r: "extract_sensor_data_fast strict_platform [''accelerometer_data_mesgs'' \<mapsto> [?h]] ''accelerometer'' =
       Inr (Some \<lparr>all_timestamps = [500000, 510000], all_x = [PInt 7, PInt 8],
                  all_y = [PInt 3, PInt 4], all_z = [PInt 5, PInt 6]\<rparr>)"
    by (simp add: extract_sensor_data_fast_def k group_step_valid accel_group_valid
        accel_group_representable accel_group_parts empty_sensor_df_def)
  show ?thesis
    using mismatched_group_dropped [OF l' l(4) ne, of strict_platform empty_sensor_df "[]" "[?h]"
        "''accelerometer''" "''accelerometer_data_mesgs''" Map.empty] l k r
    by simp
qed

lemma offsets_group_fields:
  "offsets_group offs ''sample_time_offset'' = Some (PList (map PInt offs))"
  "offsets_group offs ''calibrated_accel_x'' = Some (PList (map (\<lambda>off. PInt 0) offs))"
  "offsets_group offs ''calibrated_accel_y'' = Some (PList (map (\<lambda>off. PInt 0) offs))"
  "offsets_group offs ''calibrated_accel_z'' = Some (PList (map (\<lambda>off. PInt 0) offs))"
  "offsets_group offs ''timestamp_ms'' = None"
  by (simp_all add: offsets_group_def)


lemma offsets_group_offsets: "group_offsets (offsets_group offs) = offs"
  by (simp add: offsets_group_fields group_offsets_def comp_def)




text \<open>
  C4, as the code has it. The expander returns "no data" exactly when the message type is absent
  or when it is present and no row was collected, the same value in both cases; it returns a
  table exactly when the message type is present and at least one row was collected, and the
  columns of that table have the same length.
\<close>

theorem no_data_cases:
  assumes "sensor_keys sensor_type = Inr (key, axis)"
  shows "(extract_sensor_data_fast pf msgs sensor_type = Inr None \<longleftrightarrow>
            msgs key = None \<or>
            (\<exists>gs. msgs key = Some gs \<and> all_timestamps (sensor_loop pf axis gs empty_sensor_df) = []))
       \<and> (extract_sensor_data_fast pf msgs sensor_type = Inr (Some df) \<longleftrightarrow>
            (\<exists>gs. msgs key = Some gs \<and> df = sensor_loop pf axis gs empty_sensor_df
                \<and> all_timestamps df \<noteq> []))
       \<and> (extract_sensor_data_fast pf msgs sensor_type = Inr (Some df) \<longrightarrow>
            length (all_x df) = length (all_timestamps df)
            \<and> length (all_y df) = length (all_timestamps df)
            \<and> length (all_z df) = length (all_timestamps df))"
proof (cases "msgs key")
  case None
  then show ?thesis using assms by (simp add: extract_sensor_data_fast_def)
next
  case (Some gs)
  have "aligned (sensor_loop pf axis gs empty_sensor_df)"
    by (rule sensor_loop_aligned) (simp add: aligned_def empty_sensor_df_def)
  then show ?thesis
    using assms Some by (auto simp: extract_sensor_data_fast_def Let_def aligned_def)
qed

theorem no_data_cases_witness:
  "sensor_keys ''gyroscope'' = Inr (''gyroscope_data_mesgs'', ''calibrated_gyro'')
   \<and> extract_sensor_data_fast strict_platform [''gyroscope_data_mesgs'' \<mapsto> [Map.empty]] ''gyroscope'' = Inr None
   \<and> extract_sensor_data_fast strict_platform Map.empty ''gyroscope'' = Inr None"
proof -
  have k: "sensor_keys ''gyroscope'' = Inr (''gyroscope_data_mesgs'', ''calibrated_gyro'')"
    by (simp add: sensor_keys_def)
  have e: "all_timestamps (sensor_loop strict_platform ''calibrated_gyro'' [Map.empty] empty_sensor_df) = []"
    by (simp add: group_step_def dict_get_def consistent_def empty_sensor_df_def)
  show ?thesis
    using no_data_cases [OF k, of strict_platform "[''gyroscope_data_mesgs'' \<mapsto> [Map.empty]]"]
      no_data_cases [OF k, of strict_platform Map.empty] k e
    by simp
qed

text \<open>
  C4 as stated fails: a table without the accelerometer message type and a table that has it
  with no group give the same result, so the caller cannot tell them apart.
\<close>

theorem no_data_counterexample:
  "extract_sensor_data_fast strict_platform Map.empty ''accelerometer'' =
   extract_sensor_data_fast strict_platform [''accelerometer_data_mesgs'' \<mapsto> []] ''accelerometer''"
  by (simp add: extract_sensor_data_fast_def sensor_keys_def empty_sensor_df_def)

section \<open>The walk over the records\<close>

lemma record_step_eq:
  "record_step p r w =
     (case record_row p r of None \<Rightarrow> w
      | Some row \<Rightarrow>
          w\<lparr>timestamps := timestamps w @ [fst row],
            heart_rates := heart_rates w @ [fst (snd row)],
            developer_fields := developer_fields w @ [snd (snd row)],
            self_reports := fst (detector_step (fst row) r (self_reports w, event_active w)),
            event_active := snd (detector_step (fst row) r (self_reports w, event_active w))\<rparr>)"
  by (simp add: record_step_def record_row_def record_time_def detector_step_def aux_field_def
      Let_def split: sum.splits prod.splits)

lemma record_loop_app:
  "record_loop p (rs @ ss) w = record_loop p ss (record_loop p rs w)"
  by (induction rs arbitrary: w) simp_all

lemma detector_loop_app:
  "detector_loop p (rs @ ss) s = detector_loop p ss (detector_loop p rs s)"
  by (induction rs arbitrary: s) simp_all

lemma rows_of_simps:
  "rows_of p [] = []"
  "rows_of p (r # rs) = (case record_row p r of None \<Rightarrow> rows_of p rs | Some row \<Rightarrow> row # rows_of p rs)"
  by (simp_all add: rows_of_def map_filter_simps split: option.splits)

lemma rows_of_app: "rows_of p (rs @ ss) = rows_of p rs @ rows_of p ss"
  by (induction rs) (simp_all add: rows_of_simps split: option.splits)

lemma record_loop_eq:
  "record_loop p rs w =
     w\<lparr>timestamps := timestamps w @ map fst (rows_of p rs),
       heart_rates := heart_rates w @ map (\<lambda>row. fst (snd row)) (rows_of p rs),
       developer_fields := developer_fields w @ map (\<lambda>row. snd (snd row)) (rows_of p rs),
       self_reports := fst (detector_loop p rs (self_reports w, event_active w)),
       event_active := snd (detector_loop p rs (self_reports w, event_active w))\<rparr>"
proof (induction rs arbitrary: w)
  case Nil
  then show ?case by (simp add: rows_of_simps)
next
  case (Cons r rs)
  show ?case
  proof (cases "record_row p r")
    case None
    then show ?thesis
      using Cons.IH [of w] by (simp add: record_step_eq rows_of_simps detector_record_def)
  next
    case (Some row)
    then show ?thesis
      using Cons.IH [of "record_step p r w"]
      by (simp add: record_step_eq rows_of_simps detector_record_def)
  qed
qed

lemma process_self_reports_cases:
  assumes "process_self_reports t c df act flag = Inr (df', act')"
  shows "(df' = df \<and> act' = act)
       \<or> (\<not> act \<and> act' \<and> in_valid_types c = Inr True \<and> py_eq_int flag 1
            \<and> df' = df @ [\<lparr>start_timestamp = t, end_timestamp = NAN, event_type = c\<rparr>])
       \<or> (act \<and> \<not> act' \<and> in_valid_types c = Inr True \<and> py_eq_int flag 0 \<and> df \<noteq> []
            \<and> df' = butlast df @ [(last df)\<lparr>end_timestamp := EndAt t\<rparr>])"
  using assms
  by (auto simp: process_self_reports_def split: sum.splits if_splits)

lemma detector_step_cases:
  "detector_step t r s = s
   \<or> (\<not> snd s \<and> snd (detector_step t r s)
        \<and> (\<exists>flag c. aux_field r 1 = Inr flag \<and> py_eq_int flag 1 \<and> aux_field r 2 = Inr c
              \<and> in_valid_types c = Inr True
              \<and> fst (detector_step t r s) =
                  fst s @ [\<lparr>start_timestamp = t, end_timestamp = NAN, event_type = c\<rparr>]))
   \<or> (snd s \<and> \<not> snd (detector_step t r s) \<and> fst s \<noteq> []
        \<and> fst (detector_step t r s) = butlast (fst s) @ [(last (fst s))\<lparr>end_timestamp := EndAt t\<rparr>])"
proof (cases "aux_field r 1")
  case (Inl e)
  then show ?thesis by (simp add: detector_step_def)
next
  case flag: (Inr flag)
  show ?thesis
  proof (cases "aux_field r 2")
    case (Inl e)
    then show ?thesis using flag by (simp add: detector_step_def)
  next
    case c: (Inr c)
    show ?thesis
    proof (cases "process_self_reports t c (fst s) (snd s) flag")
      case (Inl e)
      then show ?thesis using flag c by (simp add: detector_step_def)
    next
      case (Inr s')
      then have eq: "detector_step t r s = s'" using flag c by (simp add: detector_step_def)
      obtain df' act' where s': "s' = (df', act')" by (cases s')
      from process_self_reports_cases [OF Inr [unfolded s']] show ?thesis
        unfolding eq s' using flag c by (cases s) auto
    qed
  qed
qed

lemma record_row_time:
  "record_row p r = Some row \<Longrightarrow> record_time p r = Some (fst row)"
  by (auto simp: record_row_def split: option.splits sum.splits)

lemma detector_record_cases:
  "detector_record p r s = s
   \<or> (\<not> snd s \<and> snd (detector_record p r s)
        \<and> (\<exists>iv. opens p r iv \<and> fst (detector_record p r s) = fst s @ [iv]))
   \<or> (snd s \<and> \<not> snd (detector_record p r s) \<and> fst s \<noteq> []
        \<and> (\<exists>t. record_time p r = Some t
              \<and> fst (detector_record p r s) =
                  butlast (fst s) @ [(last (fst s))\<lparr>end_timestamp := EndAt t\<rparr>]))"
proof (cases "record_row p r")
  case None
  then show ?thesis by (simp add: detector_record_def)
next
  case (Some row)
  then have eq: "detector_record p r s = detector_step (fst row) r s"
    by (simp add: detector_record_def)
  have t: "record_time p r = Some (fst row)" using Some by (rule record_row_time)
  from detector_step_cases [of "fst row" r s] show ?thesis
  proof (elim disjE conjE exE)
    assume "detector_step (fst row) r s = s"
    then show ?thesis using eq by simp
  next
    fix flag c
    assume a: "\<not> snd s" "snd (detector_step (fst row) r s)" "aux_field r 1 = Inr flag"
      "py_eq_int flag 1" "aux_field r 2 = Inr c" "in_valid_types c = Inr True"
      "fst (detector_step (fst row) r s) =
         fst s @ [\<lparr>start_timestamp = fst row, end_timestamp = NAN, event_type = c\<rparr>]"
    have "opens p r \<lparr>start_timestamp = fst row, end_timestamp = NAN, event_type = c\<rparr>"
      using a t by (simp add: opens_def)
    then show ?thesis using a eq by auto
  next
    assume "snd s" "\<not> snd (detector_step (fst row) r s)" "fst s \<noteq> []"
      "fst (detector_step (fst row) r s) =
         butlast (fst s) @ [(last (fst s))\<lparr>end_timestamp := EndAt (fst row)\<rparr>]"
    then show ?thesis using eq t by auto
  qed
qed

lemma filter_butlast_open:
  assumes "xs \<noteq> []" and "is_open (last xs)"
  shows "length (filter is_open xs) = Suc (length (filter is_open (butlast xs)))"
proof -
  have "xs = butlast xs @ [last xs]" using assms(1) by simp
  then have "filter is_open xs = filter is_open (butlast xs @ [last xs])" by simp
  then show ?thesis using assms(2) by simp
qed

lemma detector_record_inv:
  assumes "detector_inv s"
  shows "detector_inv (detector_record p r s)"
  using detector_record_cases [of p r s]
proof (elim disjE conjE exE)
  assume "detector_record p r s = s"
  then show ?thesis using assms by simp
next
  fix iv
  assume a: "\<not> snd s" "snd (detector_record p r s)" "opens p r iv"
    "fst (detector_record p r s) = fst s @ [iv]"
  have "is_open iv" using a(3) by (auto simp: opens_def is_open_def)
  then show ?thesis using assms a by (simp add: detector_inv_def)
next
  fix t
  assume a: "snd s" "\<not> snd (detector_record p r s)" "fst s \<noteq> []"
    "fst (detector_record p r s) = butlast (fst s) @ [(last (fst s))\<lparr>end_timestamp := EndAt t\<rparr>]"
  have "is_open (last (fst s))" and one: "length (filter is_open (fst s)) = 1"
    using assms a(1) by (simp_all add: detector_inv_def)
  then have "length (filter is_open (butlast (fst s))) = 0"
    using filter_butlast_open [OF a(3)] by simp
  then show ?thesis using a by (simp add: detector_inv_def is_open_def)
qed

lemma detector_loop_inv:
  "detector_inv s \<Longrightarrow> detector_inv (detector_loop p rs s)"
  by (induction rs arbitrary: s) (simp_all add: detector_record_inv)

lemma detector_of_walk:
  "self_reports (record_loop p rs init_walk) = fst (detector_loop p rs ([], False))"
  "event_active (record_loop p rs init_walk) = snd (detector_loop p rs ([], False))"
  "timestamps (record_loop p rs init_walk) = map fst (rows_of p rs)"
  "heart_rates (record_loop p rs init_walk) = map (\<lambda>row. fst (snd row)) (rows_of p rs)"
  "developer_fields (record_loop p rs init_walk) = map (\<lambda>row. snd (snd row)) (rows_of p rs)"
  unfolding record_loop_eq [of p rs init_walk] by (simp_all add: init_walk_def)

lemma walk_inv: "detector_inv (detector_loop p rs ([], False))"
  by (rule detector_loop_inv) (simp add: detector_inv_def)

lemma detector_loop_snoc:
  "detector_loop p (rs @ [r]) s = detector_record p r (detector_loop p rs s)"
  by (simp add: detector_loop_app)

lemma active_has_opening:
  assumes "snd (detector_loop p recs ([], False))"
  shows "\<exists>pre r post iv. recs = pre @ r # post
      \<and> \<not> snd (detector_loop p pre ([], False)) \<and> opens p r iv
      \<and> fst (detector_loop p recs ([], False)) = fst (detector_loop p pre ([], False)) @ [iv]"
  using assms
proof (induction recs rule: rev_induct)
  case Nil
  then show ?case by simp
next
  case (snoc r recs)
  let ?s = "detector_loop p recs ([], False)"
  have eq: "detector_loop p (recs @ [r]) ([], False) = detector_record p r ?s"
    by (rule detector_loop_snoc)
  from detector_record_cases [of p r ?s] show ?case
  proof (elim disjE conjE exE)
    assume same: "detector_record p r ?s = ?s"
    then have "snd ?s" using snoc.prems eq by simp
    then obtain pre r0 post iv where "recs = pre @ r0 # post"
        "\<not> snd (detector_loop p pre ([], False))" "opens p r0 iv"
        "fst ?s = fst (detector_loop p pre ([], False)) @ [iv]"
      using snoc.IH by blast
    then have "recs @ [r] = pre @ r0 # (post @ [r])
        \<and> \<not> snd (detector_loop p pre ([], False)) \<and> opens p r0 iv
        \<and> fst (detector_loop p (recs @ [r]) ([], False)) = fst (detector_loop p pre ([], False)) @ [iv]"
      using eq same by simp
    then show ?thesis by blast
  next
    fix iv
    assume "\<not> snd ?s" "opens p r iv" "fst (detector_record p r ?s) = fst ?s @ [iv]"
    then have "recs @ [r] = recs @ r # []
        \<and> \<not> snd (detector_loop p recs ([], False)) \<and> opens p r iv
        \<and> fst (detector_loop p (recs @ [r]) ([], False)) = fst (detector_loop p recs ([], False)) @ [iv]"
      using eq by simp
    then show ?thesis by blast
  next
    assume "\<not> snd (detector_record p r ?s)"
    then show ?thesis using snoc.prems eq by simp
  qed
qed

lemma py_eq_int_1_not_0: "py_eq_int flag 1 \<Longrightarrow> \<not> py_eq_int flag 0"
  by (cases flag) simp_all

lemma detector_step_on_active:
  assumes "snd s" and "aux_field r 1 = Inr flag" and "py_eq_int flag 1"
  shows "detector_step t r s = s"
  using assms py_eq_int_1_not_0 [OF assms(3)]
  by (cases s) (simp add: detector_step_def process_self_reports_def split: sum.splits)



lemma detector_step_lacking:
  assumes "aux_field r 2 = Inl e"
  shows "detector_step t r s = s"
  using assms by (simp add: detector_step_def split: sum.splits)

lemma aux_first:
  assumes "aux_field r 1 = Inr flag"
  shows "\<exists>d. first_dev_field (dict_get r ''developer_fields'' (PList [])) = Inr d"
proof (cases "dict_get r ''developer_fields'' (PList [])")
  case (PList vs)
  then have "1 < length vs" using assms by (simp add: aux_field_def split: if_splits)
  then show ?thesis using PList by (cases vs) (simp_all add: first_dev_field_def)
next
  case (PStr s)
  then have "1 < length s" using assms by (simp add: aux_field_def split: if_splits)
  then show ?thesis using PStr by (cases s) (simp_all add: first_dev_field_def)
qed (use assms in \<open>simp_all add: aux_field_def\<close>)

lemma record_row_aux:
  assumes "record_time p r = Some t" and "aux_field r 1 = Inr flag"
  shows "\<exists>row. record_row p r = Some row \<and> fst row = t"
  using assms aux_first [OF assms(2)] by (auto simp: record_row_def)




lemma report_record_eval:
  "0 \<le> t \<Longrightarrow> t < 253402214400 \<Longrightarrow> record_time p (report_record t devs) = Some (t * 1000000)"
  "aux_field (report_record t devs) i = py_index (PList devs) i"
  "0 \<le> t \<Longrightarrow> t < 253402214400 \<Longrightarrow>
     record_row p (report_record t (d # ds)) = Some (t * 1000000, PInt 60, developer_cell d)"
  "dict_get (report_record t devs) ''developer_fields'' (PList []) = PList devs"
  "dict_get (report_record t devs) ''heart_rate'' PNone = PInt 60"
  by (simp_all add: record_row_def record_time_def report_record_def dict_get_def
      convert_timestamp_def fromtimestamp_def aux_field_def first_dev_field_def)

lemma detector_record_report:
  "0 \<le> t \<Longrightarrow> t < 253402214400 \<Longrightarrow>
   detector_record p (report_record t [d, flag, c]) s =
     (case process_self_reports (t * 1000000) c (fst s) (snd s) flag of Inl e \<Rightarrow> s | Inr s' \<Rightarrow> s')"
  by (simp add: detector_record_def detector_step_def report_record_eval)

lemma valid_types_eval:
  "in_valid_types (PInt 1) = Inr True" "in_valid_types (PInt 2) = Inr True"
  "in_valid_types (PInt 3) = Inr False"
  by (simp_all add: VALID_SELF_REPORT_EVENT_TYPES_def)



text \<open>
  C8. At every point of the walk over the records the number of open intervals is one while
  the detector is active and zero while it is idle. A record whose active flag is 1 while the
  detector is active changes neither the intervals nor the state, whatever its event-type code.
\<close>

theorem one_open_interval:
  "length (filter is_open (self_reports (record_loop p (take n recs) init_walk))) =
     (if event_active (record_loop p (take n recs) init_walk) then 1 else 0)
   \<and> (event_active w \<and> aux_field r 1 = Inr flag \<and> py_eq_int flag 1 \<longrightarrow>
        self_reports (record_step p r w) = self_reports w \<and> event_active (record_step p r w))
   \<and> (event_active (record_loop p recs init_walk) \<and> aux_field r 1 = Inr flag \<and> py_eq_int flag 1 \<longrightarrow>
        self_reports (record_loop p (recs @ [r]) init_walk) = self_reports (record_loop p recs init_walk)
        \<and> event_active (record_loop p (recs @ [r]) init_walk))"
proof -
  have inv: "length (filter is_open (self_reports (record_loop p (take n recs) init_walk))) =
     (if event_active (record_loop p (take n recs) init_walk) then 1 else 0)"
    using walk_inv [of p "take n recs"] by (simp add: detector_of_walk detector_inv_def)
  have step: "self_reports (record_step p r v) = self_reports v \<and> event_active (record_step p r v)"
    if "event_active v" "aux_field r 1 = Inr flag" "py_eq_int flag 1" for v
  proof (cases "record_row p r")
    case None
    then show ?thesis using that by (simp add: record_step_eq)
  next
    case (Some row)
    have "detector_step (fst row) r (self_reports v, event_active v) = (self_reports v, event_active v)"
      using detector_step_on_active [of "(self_reports v, event_active v)" r flag "fst row"] that
      by simp
    then show ?thesis using Some that by (simp add: record_step_eq)
  qed
  have loop: "self_reports (record_loop p (recs @ [r]) init_walk) = self_reports (record_loop p recs init_walk)
        \<and> event_active (record_loop p (recs @ [r]) init_walk)"
    if "event_active (record_loop p recs init_walk)" "aux_field r 1 = Inr flag" "py_eq_int flag 1"
    using step [OF that] by (simp add: record_loop_app)
  show ?thesis using inv step loop by blast
qed

theorem one_open_interval_witness:
  "event_active (record_loop strict_platform [report_record 10 [PInt 0, PInt 1, PInt 1]] init_walk)
   \<and> aux_field (report_record 20 [PInt 0, PInt 1, PInt 2]) 1 = Inr (PInt 1)
   \<and> py_eq_int (PInt 1) 1
   \<and> self_reports (record_loop strict_platform
        [report_record 10 [PInt 0, PInt 1, PInt 1], report_record 20 [PInt 0, PInt 1, PInt 2]]
        init_walk) =
       [\<lparr>start_timestamp = 10000000, end_timestamp = NAN, event_type = PInt 1\<rparr>]
   \<and> length (filter is_open (self_reports (record_loop strict_platform
        (take 2 [report_record 10 [PInt 0, PInt 1, PInt 1], report_record 20 [PInt 0, PInt 1, PInt 2]])
        init_walk))) = 1"
proof -
  let ?r1 = "report_record 10 [PInt 0, PInt 1, PInt 1]"
  let ?r2 = "report_record 20 [PInt 0, PInt 1, PInt 2]"
  have sr: "self_reports (record_loop strict_platform [?r1] init_walk) =
      [\<lparr>start_timestamp = 10000000, end_timestamp = NAN, event_type = PInt 1\<rparr>]"
    and a: "event_active (record_loop strict_platform [?r1] init_walk)"
    by (simp_all add: detector_of_walk detector_record_report process_self_reports_def
        valid_types_eval VALID_SELF_REPORT_EVENT_TYPES_def del: record_loop.simps)
  have f: "aux_field ?r2 1 = Inr (PInt 1)" by (simp add: report_record_eval)
  have e: "py_eq_int (PInt 1) 1" by simp
  have "self_reports (record_loop strict_platform ([?r1] @ [?r2]) init_walk) =
          self_reports (record_loop strict_platform [?r1] init_walk)
        \<and> event_active (record_loop strict_platform ([?r1] @ [?r2]) init_walk)"
    using one_open_interval [of strict_platform 2 "[?r1]" "record_loop strict_platform [?r1] init_walk" ?r2 "PInt 1"] a f e
    by blast
  moreover have "length (filter is_open (self_reports (record_loop strict_platform (take 2 [?r1, ?r2]) init_walk))) =
     (if event_active (record_loop strict_platform (take 2 [?r1, ?r2]) init_walk) then 1 else 0)"
    using one_open_interval [of strict_platform 2 "[?r1, ?r2]" init_walk ?r2 "PInt 1"] by blast
  ultimately show ?thesis using a f sr by simp
qed

lemma sensor_extract_ok:
  "\<exists>a. extract_sensor_data_fast p msgs ''accelerometer'' = Inr a"
  "\<exists>a. extract_sensor_data_fast p msgs ''gyroscope'' = Inr a"
  by (simp_all add: extract_sensor_data_fast_def sensor_keys_def Let_def split: option.splits)

lemma process_to_csv_records:
  assumes "extract_record_data_fast p msgs = Some (rd, sr)"
  shows "\<exists>files paths. process_to_csv p (Some msgs) =
      (files @ [(record_csv_path, RecordTable rd), (self_report_csv_path, SelfReportTable sr)],
       Inr (paths @ [Some record_csv_path, Some self_report_csv_path]))"
proof -
  obtain a g where "extract_sensor_data_fast p msgs ''accelerometer'' = Inr a"
    "extract_sensor_data_fast p msgs ''gyroscope'' = Inr g"
    using sensor_extract_ok by blast
  then show ?thesis using assms by (simp add: process_to_csv_def Let_def)
qed

lemma process_to_csv_no_records:
  assumes "extract_record_data_fast p msgs = None"
  shows "snd (process_to_csv p (Some msgs)) = Inl TypeError"
proof -
  obtain a g where "extract_sensor_data_fast p msgs ''accelerometer'' = Inr a"
    "extract_sensor_data_fast p msgs ''gyroscope'' = Inr g"
    using sensor_extract_ok by blast
  then show ?thesis using assms by (simp add: process_to_csv_def Let_def)
qed

lemma detector_record_lacking:
  assumes "aux_field r 1 = Inl e1 \<or> aux_field r 2 = Inl e2"
  shows "detector_record p r s = s"
  using assms
  by (auto simp: detector_record_def detector_step_def split: option.splits sum.splits)

lemma record_row_read:
  assumes "record_time p r = Some t"
    and "first_dev_field (dict_get r ''developer_fields'' (PList [])) = Inr d"
  shows "record_row p r = Some (t, dict_get r ''heart_rate'' PNone, developer_cell d)"
  using assms by (simp add: record_row_def)

lemma record_row_unread:
  assumes "record_time p r = None \<or> first_dev_field (dict_get r ''developer_fields'' (PList [])) = Inl e"
  shows "record_row p r = None"
  using assms by (auto simp: record_row_def split: option.splits)

lemma extract_record_walk:
  assumes "msgs ''record_mesgs'' = Some recs"
  shows "extract_record_data_fast p msgs =
     (if timestamps (record_loop p recs init_walk) = [] then None
      else Some (\<lparr>col_timestamp = timestamps (record_loop p recs init_walk),
                   col_heart_rate = heart_rates (record_loop p recs init_walk),
                   col_developer_field = developer_fields (record_loop p recs init_walk)\<rparr>,
                 self_reports (record_loop p recs init_walk)))"
  using assms by (simp add: extract_record_data_fast_def Let_def)

text \<open>
  C5, as the code has it. A record that lacks the active flag or the event-type code changes
  neither the intervals nor the state of the detector: after that record and at the end of the
  stream they are those of the stream without the record. Such a record contributes its row
  (timestamp, heart rate, first developer value), at its place in the stream, in the table
  that the record extraction returns and that is written to the record file, when its
  timestamp converts and the read of its first developer value does not raise, as with
  developer fields that are absent or a list; when the timestamp does not convert or that read
  raises, the record is skipped and contributes no row.
\<close>

theorem record_without_aux:
  assumes "aux_field r 1 = Inl e1 \<or> aux_field r 2 = Inl e2"
  shows "self_reports (record_loop p (pre @ r # post) init_walk) =
           self_reports (record_loop p (pre @ post) init_walk)
       \<and> event_active (record_loop p (pre @ r # post) init_walk) =
           event_active (record_loop p (pre @ post) init_walk)
       \<and> self_reports (record_step p r w) = self_reports w
       \<and> event_active (record_step p r w) = event_active w
       \<and> (record_time p r = Some t
            \<and> first_dev_field (dict_get r ''developer_fields'' (PList [])) = Inr d \<longrightarrow>
          timestamps (record_loop p (pre @ r # post) init_walk) =
            timestamps (record_loop p pre init_walk) @ t # timestamps (record_loop p post init_walk)
          \<and> heart_rates (record_loop p (pre @ r # post) init_walk) =
            heart_rates (record_loop p pre init_walk) @ dict_get r ''heart_rate'' PNone #
              heart_rates (record_loop p post init_walk)
          \<and> developer_fields (record_loop p (pre @ r # post) init_walk) =
            developer_fields (record_loop p pre init_walk) @ developer_cell d #
              developer_fields (record_loop p post init_walk)
          \<and> extract_record_data_fast p (msgs(''record_mesgs'' \<mapsto> pre @ r # post)) =
            Some (\<lparr>col_timestamp = timestamps (record_loop p pre init_walk) @ t #
                      timestamps (record_loop p post init_walk),
                    col_heart_rate = heart_rates (record_loop p pre init_walk) @
                      dict_get r ''heart_rate'' PNone # heart_rates (record_loop p post init_walk),
                    col_developer_field = developer_fields (record_loop p pre init_walk) @
                      developer_cell d # developer_fields (record_loop p post init_walk)\<rparr>,
                  self_reports (record_loop p (pre @ post) init_walk))
          \<and> (record_csv_path,
              RecordTable
                \<lparr>col_timestamp = timestamps (record_loop p pre init_walk) @ t #
                   timestamps (record_loop p post init_walk),
                 col_heart_rate = heart_rates (record_loop p pre init_walk) @
                   dict_get r ''heart_rate'' PNone # heart_rates (record_loop p post init_walk),
                 col_developer_field = developer_fields (record_loop p pre init_walk) @
                   developer_cell d # developer_fields (record_loop p post init_walk)\<rparr>)
             \<in> set (fst (process_to_csv p (Some (msgs(''record_mesgs'' \<mapsto> pre @ r # post))))))
       \<and> (dict_get r ''developer_fields'' (PList []) = PList devs \<longrightarrow>
            first_dev_field (dict_get r ''developer_fields'' (PList [])) =
              Inr (case devs of [] \<Rightarrow> PNone | d # ds \<Rightarrow> d))
       \<and> (record_time p r = None
            \<or> first_dev_field (dict_get r ''developer_fields'' (PList [])) = Inl e \<longrightarrow>
          record_step p r w = w)"
proof -
  have det: "detector_loop p (pre @ r # post) s = detector_loop p (pre @ post) s" for s
    by (simp add: detector_loop_app detector_record_lacking [OF assms])
  have walk: "self_reports (record_loop p (pre @ r # post) init_walk) =
           self_reports (record_loop p (pre @ post) init_walk)
       \<and> event_active (record_loop p (pre @ r # post) init_walk) =
           event_active (record_loop p (pre @ post) init_walk)"
    by (simp add: detector_of_walk det del: record_loop.simps)
  have step: "self_reports (record_step p r w) = self_reports w
       \<and> event_active (record_step p r w) = event_active w"
  proof (cases "record_row p r")
    case None
    then show ?thesis by (simp add: record_step_eq)
  next
    case (Some row)
    then have "detector_step (fst row) r (self_reports w, event_active w) =
        (self_reports w, event_active w)"
      using detector_record_lacking [OF assms, of p "(self_reports w, event_active w)"]
      by (simp add: detector_record_def)
    then show ?thesis using Some by (simp add: record_step_eq)
  qed
  have row: "timestamps (record_loop p (pre @ r # post) init_walk) =
            timestamps (record_loop p pre init_walk) @ t # timestamps (record_loop p post init_walk)
          \<and> heart_rates (record_loop p (pre @ r # post) init_walk) =
            heart_rates (record_loop p pre init_walk) @ dict_get r ''heart_rate'' PNone #
              heart_rates (record_loop p post init_walk)
          \<and> developer_fields (record_loop p (pre @ r # post) init_walk) =
            developer_fields (record_loop p pre init_walk) @ developer_cell d #
              developer_fields (record_loop p post init_walk)
          \<and> extract_record_data_fast p (msgs(''record_mesgs'' \<mapsto> pre @ r # post)) =
            Some (\<lparr>col_timestamp = timestamps (record_loop p pre init_walk) @ t #
                      timestamps (record_loop p post init_walk),
                    col_heart_rate = heart_rates (record_loop p pre init_walk) @
                      dict_get r ''heart_rate'' PNone # heart_rates (record_loop p post init_walk),
                    col_developer_field = developer_fields (record_loop p pre init_walk) @
                      developer_cell d # developer_fields (record_loop p post init_walk)\<rparr>,
                  self_reports (record_loop p (pre @ post) init_walk))
          \<and> (record_csv_path,
              RecordTable
                \<lparr>col_timestamp = timestamps (record_loop p pre init_walk) @ t #
                   timestamps (record_loop p post init_walk),
                 col_heart_rate = heart_rates (record_loop p pre init_walk) @
                   dict_get r ''heart_rate'' PNone # heart_rates (record_loop p post init_walk),
                 col_developer_field = developer_fields (record_loop p pre init_walk) @
                   developer_cell d # developer_fields (record_loop p post init_walk)\<rparr>)
             \<in> set (fst (process_to_csv p (Some (msgs(''record_mesgs'' \<mapsto> pre @ r # post)))))"
    if t: "record_time p r = Some t"
      and d: "first_dev_field (dict_get r ''developer_fields'' (PList [])) = Inr d"
  proof -
    have rows: "rows_of p (pre @ r # post) =
        rows_of p pre @ (t, dict_get r ''heart_rate'' PNone, developer_cell d) # rows_of p post"
      by (simp add: rows_of_app rows_of_simps record_row_read [OF t d])
    have cols: "timestamps (record_loop p (pre @ r # post) init_walk) =
            timestamps (record_loop p pre init_walk) @ t # timestamps (record_loop p post init_walk)"
      "heart_rates (record_loop p (pre @ r # post) init_walk) =
            heart_rates (record_loop p pre init_walk) @ dict_get r ''heart_rate'' PNone #
              heart_rates (record_loop p post init_walk)"
      "developer_fields (record_loop p (pre @ r # post) init_walk) =
            developer_fields (record_loop p pre init_walk) @ developer_cell d #
              developer_fields (record_loop p post init_walk)"
      by (simp_all add: detector_of_walk rows del: record_loop.simps)
    have "(msgs(''record_mesgs'' \<mapsto> pre @ r # post)) ''record_mesgs'' = Some (pre @ r # post)"
      by simp
    from extract_record_walk [of "msgs(''record_mesgs'' \<mapsto> pre @ r # post)" "pre @ r # post" p, OF this]
    have ex: "extract_record_data_fast p (msgs(''record_mesgs'' \<mapsto> pre @ r # post)) =
            Some (\<lparr>col_timestamp = timestamps (record_loop p pre init_walk) @ t #
                      timestamps (record_loop p post init_walk),
                    col_heart_rate = heart_rates (record_loop p pre init_walk) @
                      dict_get r ''heart_rate'' PNone # heart_rates (record_loop p post init_walk),
                    col_developer_field = developer_fields (record_loop p pre init_walk) @
                      developer_cell d # developer_fields (record_loop p post init_walk)\<rparr>,
                  self_reports (record_loop p (pre @ post) init_walk))"
      unfolding cols using walk by simp
    from process_to_csv_records [OF ex] show ?thesis using cols ex by auto
  qed
  have lst: "first_dev_field (dict_get r ''developer_fields'' (PList [])) =
              Inr (case devs of [] \<Rightarrow> PNone | d # ds \<Rightarrow> d)"
    if "dict_get r ''developer_fields'' (PList []) = PList devs"
    unfolding that by (cases devs) (simp_all add: first_dev_field_def)
  have skip: "record_step p r w = w"
    if "record_time p r = None
        \<or> first_dev_field (dict_get r ''developer_fields'' (PList [])) = Inl e"
    using record_row_unread [OF that] by (simp add: record_step_eq)
  show ?thesis using walk step row lst skip by blast
qed

theorem record_without_aux_witness:
  "aux_field (report_record 15 [PInt 7]) 2 = Inl IndexError
   \<and> record_time strict_platform (report_record 15 [PInt 7]) = Some 15000000
   \<and> first_dev_field (dict_get (report_record 15 [PInt 7]) ''developer_fields'' (PList [])) =
       Inr (PInt 7)
   \<and> extract_record_data_fast strict_platform
        [''record_mesgs'' \<mapsto>
           [report_record 10 [PInt 0, PInt 1, PInt 1], report_record 15 [PInt 7],
            report_record 20 [PInt 0, PInt 0, PInt 1]]] =
       Some (\<lparr>col_timestamp = [10000000, 15000000, 20000000],
               col_heart_rate = [PInt 60, PInt 60, PInt 60],
               col_developer_field = [Str (PInt 0), Str (PInt 7), Str (PInt 0)]\<rparr>,
             [\<lparr>start_timestamp = 10000000, end_timestamp = EndAt 20000000, event_type = PInt 1\<rparr>])"
proof -
  let ?r1 = "report_record 10 [PInt 0, PInt 1, PInt 1]"
  let ?r = "report_record 15 [PInt 7]"
  let ?r2 = "report_record 20 [PInt 0, PInt 0, PInt 1]"
  have l: "aux_field ?r 1 = Inl IndexError \<or> aux_field ?r 2 = Inl IndexError"
    and l2: "aux_field ?r 2 = Inl IndexError"
    and t: "record_time strict_platform ?r = Some 15000000"
    and d: "first_dev_field (dict_get ?r ''developer_fields'' (PList [])) = Inr (PInt 7)"
    by (simp_all add: report_record_eval first_dev_field_def)
  have pre: "timestamps (record_loop strict_platform [?r1] init_walk) = [10000000]"
    "heart_rates (record_loop strict_platform [?r1] init_walk) = [PInt 60]"
    "developer_fields (record_loop strict_platform [?r1] init_walk) = [Str (PInt 0)]"
    and post: "timestamps (record_loop strict_platform [?r2] init_walk) = [20000000]"
    "heart_rates (record_loop strict_platform [?r2] init_walk) = [PInt 60]"
    "developer_fields (record_loop strict_platform [?r2] init_walk) = [Str (PInt 0)]"
    and both: "self_reports (record_loop strict_platform ([?r1] @ [?r2]) init_walk) =
       [\<lparr>start_timestamp = 10000000, end_timestamp = EndAt 20000000, event_type = PInt 1\<rparr>]"
    by (simp_all add: detector_of_walk rows_of_simps report_record_eval developer_cell_def
        detector_record_report process_self_reports_def VALID_SELF_REPORT_EVENT_TYPES_def
        del: record_loop.simps)
  have "extract_record_data_fast strict_platform
          (Map.empty(''record_mesgs'' \<mapsto> [?r1] @ ?r # [?r2])) =
            Some (\<lparr>col_timestamp = timestamps (record_loop strict_platform [?r1] init_walk) @
                      15000000 # timestamps (record_loop strict_platform [?r2] init_walk),
                    col_heart_rate = heart_rates (record_loop strict_platform [?r1] init_walk) @
                      dict_get ?r ''heart_rate'' PNone #
                      heart_rates (record_loop strict_platform [?r2] init_walk),
                    col_developer_field =
                      developer_fields (record_loop strict_platform [?r1] init_walk) @
                      developer_cell (PInt 7) #
                      developer_fields (record_loop strict_platform [?r2] init_walk)\<rparr>,
                  self_reports (record_loop strict_platform ([?r1] @ [?r2]) init_walk))"
    using record_without_aux [OF l, where p = strict_platform and t = 15000000 and d = "PInt 7"
        and pre = "[?r1]" and post = "[?r2]" and msgs = Map.empty] t d
    by blast
  then have "extract_record_data_fast strict_platform [''record_mesgs'' \<mapsto> [?r1, ?r, ?r2]] =
       Some (\<lparr>col_timestamp = [10000000, 15000000, 20000000],
               col_heart_rate = [PInt 60, PInt 60, PInt 60],
               col_developer_field = [Str (PInt 0), Str (PInt 7), Str (PInt 0)]\<rparr>,
             [\<lparr>start_timestamp = 10000000, end_timestamp = EndAt 20000000, event_type = PInt 1\<rparr>])"
    unfolding pre post both by (simp add: developer_cell_def report_record_eval)
  then show ?thesis using l2 t d by blast
qed

lemma odd_record_eval:
  "0 \<le> t \<Longrightarrow> t < 253402214400 \<Longrightarrow> record_time p (odd_record t v) = Some (t * 1000000)"
  "aux_field (odd_record t v) i = py_index v i"
  "dict_get (odd_record t v) ''developer_fields'' (PList []) = v"
  by (simp_all add: record_time_def odd_record_def dict_get_def convert_timestamp_def
      fromtimestamp_def aux_field_def)

text \<open>
  C5 as stated fails: a record with the timestamp 10 whose developer fields are the number 5
  has a timestamp and lacks the active flag and the event-type code, and it contributes no
  row: the read of its first developer value raises before the row is appended.
\<close>

theorem no_row_counterexample:
  "record_time strict_platform (odd_record 10 (PInt 5)) = Some 10000000
   \<and> aux_field (odd_record 10 (PInt 5)) 1 = Inl TypeError
   \<and> aux_field (odd_record 10 (PInt 5)) 2 = Inl TypeError
   \<and> record_step strict_platform (odd_record 10 (PInt 5)) init_walk = init_walk
   \<and> extract_record_data_fast strict_platform [''record_mesgs'' \<mapsto> [odd_record 10 (PInt 5)]] = None"
proof -
  let ?r = "odd_record 10 (PInt 5)"
  have "record_row strict_platform ?r = None"
    by (simp add: record_row_def odd_record_eval first_dev_field_def)
  then have s: "record_step strict_platform ?r init_walk = init_walk"
    by (simp add: record_step_eq)
  then show ?thesis
    by (simp add: odd_record_eval extract_record_data_fast_def init_walk_def)
qed

text \<open>
  C9. When the record stream ends with the detector active, the last row of the table of
  intervals is the interval opened by the record that switched the detector on: its start is
  that record's timestamp, its event type that record's code, and its end is the open marker.
  The table is returned by the record extraction and written to the self-report file.
\<close>

theorem truncated_stream:
  assumes "event_active (record_loop p recs init_walk)" and "msgs ''record_mesgs'' = Some recs"
  shows "\<exists>pre r post iv. recs = pre @ r # post
      \<and> \<not> event_active (record_loop p pre init_walk)
      \<and> opens p r iv
      \<and> self_reports (record_loop p recs init_walk) = self_reports (record_loop p pre init_walk) @ [iv]
      \<and> last (self_reports (record_loop p recs init_walk)) = iv \<and> end_timestamp iv = NAN
      \<and> (\<exists>rd. extract_record_data_fast p msgs = Some (rd, self_reports (record_loop p recs init_walk)))
      \<and> (self_report_csv_path, SelfReportTable (self_reports (record_loop p recs init_walk)))
           \<in> set (fst (process_to_csv p (Some msgs)))"
proof -
  have "snd (detector_loop p recs ([], False))" using assms(1) by (simp add: detector_of_walk)
  then obtain pre r post iv where split: "recs = pre @ r # post"
      and idle: "\<not> snd (detector_loop p pre ([], False))" and op: "opens p r iv"
      and sr: "fst (detector_loop p recs ([], False)) = fst (detector_loop p pre ([], False)) @ [iv]"
    using active_has_opening by blast
  obtain flag where "record_time p r = Some (start_timestamp iv)" "aux_field r 1 = Inr flag"
    using op by (auto simp: opens_def split: sum.splits)
  then obtain row where "record_row p r = Some row" using record_row_aux by blast
  then have "rows_of p recs \<noteq> []" unfolding split by (simp add: rows_of_app rows_of_simps)
  then have ne: "timestamps (record_loop p recs init_walk) \<noteq> []" by (simp add: detector_of_walk)
  then obtain rd where ex: "extract_record_data_fast p msgs =
      Some (rd, self_reports (record_loop p recs init_walk))"
    using assms(2) by (simp add: extract_record_data_fast_def Let_def)
  from process_to_csv_records [OF ex]
  have wr: "(self_report_csv_path, SelfReportTable (self_reports (record_loop p recs init_walk)))
           \<in> set (fst (process_to_csv p (Some msgs)))"
    by auto
  have "recs = pre @ r # post
      \<and> \<not> event_active (record_loop p pre init_walk)
      \<and> opens p r iv
      \<and> self_reports (record_loop p recs init_walk) = self_reports (record_loop p pre init_walk) @ [iv]
      \<and> last (self_reports (record_loop p recs init_walk)) = iv \<and> end_timestamp iv = NAN"
    using split idle op sr by (simp add: detector_of_walk opens_def del: record_loop.simps)
  then show ?thesis using ex wr by blast
qed

theorem truncated_stream_witness:
  "event_active (record_loop strict_platform [report_record 10 [PInt 0, PInt 1, PInt 2]] init_walk)
   \<and> [''record_mesgs'' \<mapsto> [report_record 10 [PInt 0, PInt 1, PInt 2]]] ''record_mesgs'' =
       Some [report_record 10 [PInt 0, PInt 1, PInt 2]]
   \<and> self_reports (record_loop strict_platform [report_record 10 [PInt 0, PInt 1, PInt 2]] init_walk) =
       [\<lparr>start_timestamp = 10000000, end_timestamp = NAN, event_type = PInt 2\<rparr>]
   \<and> (self_report_csv_path,
       SelfReportTable [\<lparr>start_timestamp = 10000000, end_timestamp = NAN, event_type = PInt 2\<rparr>])
        \<in> set (fst (process_to_csv strict_platform
              (Some [''record_mesgs'' \<mapsto> [report_record 10 [PInt 0, PInt 1, PInt 2]]])))"
proof -
  let ?r = "report_record 10 [PInt 0, PInt 1, PInt 2]"
  have a: "event_active (record_loop strict_platform [?r] init_walk)"
    and sr: "self_reports (record_loop strict_platform [?r] init_walk) =
       [\<lparr>start_timestamp = 10000000, end_timestamp = NAN, event_type = PInt 2\<rparr>]"
    by (simp_all add: detector_of_walk detector_record_report process_self_reports_def
        VALID_SELF_REPORT_EVENT_TYPES_def del: record_loop.simps)
  have m: "[''record_mesgs'' \<mapsto> [?r]] ''record_mesgs'' = Some [?r]" by simp
  from truncated_stream [of strict_platform "[?r]" "[''record_mesgs'' \<mapsto> [?r]]", OF a m]
  have "(self_report_csv_path, SelfReportTable (self_reports (record_loop strict_platform [?r] init_walk)))
           \<in> set (fst (process_to_csv strict_platform (Some [''record_mesgs'' \<mapsto> [?r]])))"
    by blast
  then show ?thesis using a m sr by (simp del: record_loop.simps)
qed

section \<open>The file processing unit and the batch\<close>

lemma sensor_only_extract:
  "extract_sensor_data_fast strict_platform [''accelerometer_data_mesgs'' \<mapsto> [accel_group (Some 1000) [PInt 1, PInt 2]]]
      ''accelerometer'' =
     Inr (Some \<lparr>all_timestamps = [1000000, 1010000], all_x = [PInt 1, PInt 2],
                all_y = [PInt 3, PInt 4], all_z = [PInt 5, PInt 6]\<rparr>)"
  "extract_sensor_data_fast strict_platform [''accelerometer_data_mesgs'' \<mapsto> [accel_group (Some 1000) [PInt 1, PInt 2]]]
      ''gyroscope'' = Inr None"
  "extract_record_data_fast p [''accelerometer_data_mesgs'' \<mapsto> [accel_group (Some 1000) [PInt 1, PInt 2]]]
     = None"
  by (simp_all add: extract_sensor_data_fast_def extract_record_data_fast_def sensor_keys_def
      group_step_valid accel_group_valid accel_group_representable accel_group_parts
      empty_sensor_df_def)

lemma records_only_extract:
  "extract_sensor_data_fast strict_platform [''record_mesgs'' \<mapsto> [report_record 10 [PInt 0, PInt 0, PInt 1]]]
      ''accelerometer'' = Inr None"
  "extract_sensor_data_fast strict_platform [''record_mesgs'' \<mapsto> [report_record 10 [PInt 0, PInt 0, PInt 1]]]
      ''gyroscope'' = Inr None"
  "extract_record_data_fast strict_platform [''record_mesgs'' \<mapsto> [report_record 10 [PInt 0, PInt 0, PInt 1]]]
     = Some (\<lparr>col_timestamp = [10000000], col_heart_rate = [PInt 60],
               col_developer_field = [Str (PInt 0)]\<rparr>, [])"
  by (simp_all add: extract_sensor_data_fast_def extract_record_data_fast_def sensor_keys_def
      detector_of_walk rows_of_simps report_record_eval developer_cell_def
      detector_record_report process_self_reports_def VALID_SELF_REPORT_EVENT_TYPES_def
      del: record_loop.simps)

text \<open>
  C1 says that a file with sensor data and no record message type still yields its sensor
  outputs and reports success. On such a file the accelerometer table is written, and then the
  unpacking of the \<^verbatim>\<open>None\<close> returned by the record extraction raises: the unit reports
  nothing.
\<close>

theorem sensor_only_file_raises:
  "process_single_file strict_platform
     (Some [''accelerometer_data_mesgs'' \<mapsto> [accel_group (Some 1000) [PInt 1, PInt 2]]]) =
   ([(accel_csv_path,
      SensorTable \<lparr>all_timestamps = [1000000, 1010000], all_x = [PInt 1, PInt 2],
                   all_y = [PInt 3, PInt 4], all_z = [PInt 5, PInt 6]\<rparr>)],
    Inl TypeError)"
  by (simp add: process_single_file_def process_to_csv_def sensor_only_extract write_sensor_def)

text \<open>
  C2 says that an exception leaving a unit is recorded for that file only, with and without
  the pool. Without the pool the exception of the first file ends the batch: the second file
  is not processed and no summary is produced. With the pool the same batch goes on to the
  second file and counts one success out of two.
\<close>

theorem sequential_batch_aborts:
  "process_all_files strict_platform False
     [(''a.fit'', Some [''accelerometer_data_mesgs'' \<mapsto> [accel_group (Some 1000) [PInt 1, PInt 2]]]),
      (''b.fit'', Some [''record_mesgs'' \<mapsto> [report_record 10 [PInt 0, PInt 0, PInt 1]]])] =
   ([(''a.fit'',
      [(accel_csv_path,
        SensorTable \<lparr>all_timestamps = [1000000, 1010000], all_x = [PInt 1, PInt 2],
                     all_y = [PInt 3, PInt 4], all_z = [PInt 5, PInt 6]\<rparr>)])],
    Inl TypeError)
   \<and> process_all_files strict_platform True
     [(''a.fit'', Some [''accelerometer_data_mesgs'' \<mapsto> [accel_group (Some 1000) [PInt 1, PInt 2]]]),
      (''b.fit'', Some [''record_mesgs'' \<mapsto> [report_record 10 [PInt 0, PInt 0, PInt 1]]])] =
   ([(''a.fit'',
      [(accel_csv_path,
        SensorTable \<lparr>all_timestamps = [1000000, 1010000], all_x = [PInt 1, PInt 2],
                     all_y = [PInt 3, PInt 4], all_z = [PInt 5, PInt 6]\<rparr>)]),
     (''b.fit'',
      [(record_csv_path,
        RecordTable \<lparr>col_timestamp = [10000000], col_heart_rate = [PInt 60],
                     col_developer_field = [Str (PInt 0)]\<rparr>),
       (self_report_csv_path, SelfReportTable [])])],
    Inr (Some (1, 2)))"
  by (simp add: process_all_files_def process_single_file_def process_to_csv_def
      sensor_only_extract records_only_extract write_sensor_def)

end
